theory Spec2Isabelle
  imports Main "HOL-Library.Word"
begin

section \<open>Library and operating-system primitives\<close>

text \<open>
  \<^verbatim>\<open>space_heater.c\<close> has two implementations, chosen by the preprocessor: a Windows one
  (lines 32--160) and a POSIX one (lines 162--223). Both are embedded here. Each \<^verbatim>\<open>main\<close>
  becomes a function from the answers of the operating system (a record of what every call
  returns) to the sequence of calls the supervisor makes and the status it returns. The
  calls are the observable behaviour: what is written to which stream, which threads are
  created, joined and closed, and in which order.

  The C library's formatting, \<^verbatim>\<open>strlen\<close>, \<^verbatim>\<open>StringCchPrintfA\<close> and \<^verbatim>\<open>WriteConsoleA\<close>
  are not code of the repository; they are modelled from their documented behaviour, on
  strings as lists of bytes. In the call sequence of a \<^verbatim>\<open>main\<close> or of a handler, \<open>Write\<close>
  stands for the call of \<^verbatim>\<open>fprintf\<close> or \<^verbatim>\<open>WriteConsoleA\<close> with its stream and bytes; when
  the bytes reach the stream is decided in the model of the running process, which holds
  the buffer that the C library keeps for \<^verbatim>\<open>stdout\<close>. Failing output, which the program
  never tests for, is not modelled. The signal numbers and exit statuses are
  the usual values of \<^verbatim>\<open>SIGINT\<close>, \<^verbatim>\<open>SIGTERM\<close>, \<^verbatim>\<open>EXIT_SUCCESS\<close> and \<^verbatim>\<open>EXIT_FAILURE\<close>.
\<close>

datatype stream = Stdout | Stderr

type_synonym tid = nat

definition NUL :: char where
  "NUL = CHR 0x00"

definition EXIT_SUCCESS :: int where
  "EXIT_SUCCESS = 0"

definition EXIT_FAILURE :: int where
  "EXIT_FAILURE = 1"

definition SIGINT :: int where
  "SIGINT = 2"

definition SIGTERM :: int where
  "SIGTERM = 15"

text \<open>Decimal rendering, as \<^verbatim>\<open>%d\<close> and \<^verbatim>\<open>%lu\<close> print it.\<close>

definition digit_char :: "nat \<Rightarrow> char" where
  "digit_char d = ''0123456789'' ! d"

function dec_nat :: "nat \<Rightarrow> string" where
  "dec_nat n = (if n < 10 then [digit_char n] else dec_nat (n div 10) @ [digit_char (n mod 10)])"
  by pat_completeness auto
termination
  by (relation "measure id") auto

definition fmt_d :: "int \<Rightarrow> string" where
  "fmt_d i = (if i < 0 then CHR ''-'' # dec_nat (nat (- i)) else dec_nat (nat i))"

definition fmt_lu :: "32 word \<Rightarrow> string" where
  "fmt_lu w = dec_nat (unat w)"

text \<open>
  A format string with one conversion: the first \<^verbatim>\<open>%d\<close> (or \<^verbatim>\<open>%lu\<close>) is replaced by the
  rendered argument, every other byte is copied.
\<close>

fun sprintf_d :: "string \<Rightarrow> int \<Rightarrow> string" where
  "sprintf_d (a # b # cs) i =
     (if a = CHR ''%'' \<and> b = CHR ''d'' then fmt_d i @ cs else a # sprintf_d (b # cs) i)"
| "sprintf_d cs i = cs"

fun sprintf_lu :: "string \<Rightarrow> 32 word \<Rightarrow> string" where
  "sprintf_lu (a # b # c # cs) w =
     (if a = CHR ''%'' \<and> b = CHR ''l'' \<and> c = CHR ''u'' then fmt_lu w @ cs
      else a # sprintf_lu (b # c # cs) w)"
| "sprintf_lu cs w = cs"

text \<open>
  A C string in memory is its bytes followed by a terminating zero byte; \<^verbatim>\<open>strlen\<close>
  counts the bytes before the first zero byte.
\<close>

definition c_str :: "string \<Rightarrow> string" where
  "c_str s = s @ [NUL]"

definition strlen :: "string \<Rightarrow> nat" where
  "strlen mem = length (takeWhile (\<lambda>c. c \<noteq> NUL) mem)"

text \<open>
  \<^verbatim>\<open>StringCchPrintfA(dest, cch, fmt, arg)\<close>: \<open>buf\<close> is what the destination holds before
  the call and \<open>s\<close> the fully formatted text. When the text and its terminator fit in
  \<open>cch\<close> bytes the call stores both and returns \<^verbatim>\<open>S_OK\<close>, leaving the bytes behind the
  terminator as they were; otherwise it stores the truncated text, terminated, and returns
  \<^verbatim>\<open>STRSAFE_E_INSUFFICIENT_BUFFER\<close>.
\<close>

datatype hresult = S_OK | STRSAFE_E_INSUFFICIENT_BUFFER

definition StringCchPrintfA :: "string \<Rightarrow> nat \<Rightarrow> string \<Rightarrow> hresult \<times> string" where
  "StringCchPrintfA buf cch s =
     (if length s < cch then (S_OK, s @ NUL # drop (Suc (length s)) buf)
      else (STRSAFE_E_INSUFFICIENT_BUFFER, take (cch - 1) s @ NUL # drop cch buf))"

section \<open>Calls of the supervisor\<close>

text \<open>
  One constructor for each kind of call the two \<^verbatim>\<open>main\<close> functions and the two signal
  handlers make, with the result the operating system gave where the program's behaviour
  depends on it. A thread handle read from the handle sequence is \<open>Some t\<close>, a read of a
  slot that was never written would be \<open>None\<close>.
\<close>

datatype event =
    Query_cpus
  | Get_handle stream bool
  | Debug_out string
  | Install int bool
  | Install_ctrl bool
  | Alloc int bool
  | Create int "tid option"
  | Write stream string
  | Set_stop int
  | Join "tid option"
  | Wait_all "tid option list"
  | Close "tid option"
  | Free

text \<open>\<^verbatim>\<open>WriteConsoleA(h, mem, n, NULL, NULL)\<close> writes the first \<open>n\<close> bytes at \<open>mem\<close>.\<close>

definition WriteConsoleA :: "stream \<Rightarrow> string \<Rightarrow> nat \<Rightarrow> event" where
  "WriteConsoleA h mem n = Write h (take n mem)"

text \<open>Observations on a sequence of calls.\<close>

fun written :: "stream \<Rightarrow> event list \<Rightarrow> string list" where
  "written h [] = []"
| "written h (Write h' s # es) = (if h' = h then s # written h es else written h es)"
| "written h (e # es) = written h es"

fun spawn_attempts :: "event list \<Rightarrow> int list" where
  "spawn_attempts [] = []"
| "spawn_attempts (Create i r # es) = i # spawn_attempts es"
| "spawn_attempts (e # es) = spawn_attempts es"

fun spawned :: "event list \<Rightarrow> tid list" where
  "spawned [] = []"
| "spawned (Create i (Some t) # es) = t # spawned es"
| "spawned (e # es) = spawned es"

fun joined :: "event list \<Rightarrow> tid option list" where
  "joined [] = []"
| "joined (Join t # es) = t # joined es"
| "joined (e # es) = joined es"

fun waited :: "event list \<Rightarrow> tid option list list" where
  "waited [] = []"
| "waited (Wait_all ts # es) = ts # waited es"
| "waited (e # es) = waited es"

fun closed :: "event list \<Rightarrow> tid option list" where
  "closed [] = []"
| "closed (Close t # es) = t # closed es"
| "closed (e # es) = closed es"

fun is_stdout_write :: "event \<Rightarrow> bool" where
  "is_stdout_write (Write h s) = (h = Stdout)"
| "is_stdout_write e = False"

section \<open>The POSIX implementation\<close>

text \<open>
  What the system answers. \<open>sysconf_nprocs\<close> is the value that line 177 stores in the
  \<^verbatim>\<open>int numThreads\<close>; \<open>signal_ok sig\<close> tells whether \<^verbatim>\<open>signal(sig, exit_handler)\<close>
  installed the handler (the program never looks at the result); \<open>pthread_create_rc i\<close>
  is the return code of the call of \<^verbatim>\<open>pthread_create\<close> for slot \<open>i\<close> and
  \<open>pthread_create_id i\<close> the thread id it stores in \<^verbatim>\<open>threads[i]\<close> on success.
  \<open>stdout_interactive\<close> tells whether standard output is a terminal; it does not
  influence the calls of \<^verbatim>\<open>main\<close>, only how the C library buffers \<^verbatim>\<open>stdout\<close>.
\<close>

record posix_env =
  sysconf_nprocs :: "32 word"
  signal_ok :: "int \<Rightarrow> bool"
  malloc_ok :: bool
  pthread_create_rc :: "int \<Rightarrow> int"
  pthread_create_id :: "int \<Rightarrow> tid"
  stdout_interactive :: bool

text \<open>
  Lines 195--201: the spawn loop from index \<open>i\<close>. The result is the calls made and either
  the index whose spawn failed or the handle sequence after the last spawn. The counter
  is an \<^verbatim>\<open>int\<close> that stays below \<open>n\<close>, so it never overflows.
\<close>

function posix_spawn_loop ::
  "posix_env \<Rightarrow> int \<Rightarrow> int \<Rightarrow> (int \<rightharpoonup> tid) \<Rightarrow> event list \<times> (int + (int \<rightharpoonup> tid))" where
  "posix_spawn_loop env n i threads =
     (if i < n then
        (if pthread_create_rc env i \<noteq> 0 then ([Create i None], Inl i)
         else
           (case posix_spawn_loop env n (i + 1) (threads(i \<mapsto> pthread_create_id env i)) of
              (es, r) \<Rightarrow> (Create i (Some (pthread_create_id env i)) # es, r)))
      else ([], Inr threads))"
  by pat_completeness auto
termination
  by (relation "measure (\<lambda>(env, n, i, threads). nat (n - i))") auto

text \<open>Lines 205--207: the join loop from index \<open>i\<close>.\<close>

function posix_join_loop :: "int \<Rightarrow> int \<Rightarrow> (int \<rightharpoonup> tid) \<Rightarrow> event list" where
  "posix_join_loop n i threads =
     (if i < n then Join (threads i) # posix_join_loop n (i + 1) threads else [])"
  by pat_completeness auto
termination
  by (relation "measure (\<lambda>(n, i, threads). nat (n - i))") auto

text \<open>Lines 176--211: \<^verbatim>\<open>main\<close>, as the calls it makes and the status it returns.\<close>

definition posix_main :: "posix_env \<Rightarrow> event list \<times> int" where
  "posix_main env =
     (let numThreads = sint (sysconf_nprocs env);
          startup = [Query_cpus,
                     Install SIGINT (signal_ok env SIGINT),
                     Install SIGTERM (signal_ok env SIGTERM)]
      in if numThreads \<le> 0 then
           (startup @ [Write Stderr ''Error getting the number of processors.\<newline>''],
            EXIT_FAILURE)
         else if \<not> malloc_ok env then
           (startup @ [Alloc numThreads False,
                       Write Stderr ''Error allocating memory for threads.\<newline>''],
            EXIT_FAILURE)
         else
           (case posix_spawn_loop env numThreads 0 Map.empty of
              (spawns, Inl i) \<Rightarrow>
                (startup @ [Alloc numThreads True] @ spawns @
                   [Write Stderr (sprintf_d ''Error creating thread %d.\<newline>'' i), Free],
                 EXIT_FAILURE)
            | (spawns, Inr threads) \<Rightarrow>
                (startup @ [Alloc numThreads True] @ spawns @
                   [Write Stdout (sprintf_d ''Started %d worker threads\<newline>'' numThreads)] @
                   posix_join_loop numThreads 0 threads @ [Free],
                 EXIT_SUCCESS)))"

text \<open>
  Lines 220--223: \<^verbatim>\<open>exit_handler\<close>, as the two things it does in order: one formatted
  line, then the store to \<^verbatim>\<open>stop\<close>.
\<close>

definition exit_handler :: "int \<Rightarrow> event list" where
  "exit_handler signal =
     [Write Stdout (sprintf_d ''Received exit signal %d: Exiting...\<newline>'' signal),
      Set_stop 1]"

section \<open>The Windows implementation\<close>

text \<open>
  What the system answers. The two \<open>handle_ok\<close> fields tell whether \<^verbatim>\<open>GetStdHandle\<close>
  returned a usable handle, \<open>ctrl_handler_ok\<close> whether \<^verbatim>\<open>SetConsoleCtrlHandler\<close>
  succeeded, \<open>CreateThread i\<close> is the handle returned for slot \<open>i\<close> (\<^verbatim>\<open>NULL\<close> on
  failure), and \<open>stack_bytes\<close> is what the uninitialised \<^verbatim>\<open>messageBuffer\<close> of \<^verbatim>\<open>main\<close>
  happens to hold. \<^verbatim>\<open>numThreads\<close> is the \<^verbatim>\<open>DWORD dwNumberOfProcessors\<close> read as an
  \<^verbatim>\<open>INT\<close>.
\<close>

record win_env =
  stdout_handle_ok :: bool
  stderr_handle_ok :: bool
  ctrl_handler_ok :: bool
  dwNumberOfProcessors :: "32 word"
  heap_alloc_ok :: bool
  CreateThread :: "int \<Rightarrow> tid"
  stack_bytes :: string

text \<open>
  \<^verbatim>\<open>GetSystemInfo\<close> reports the logical processors of the processor group of the calling
  thread; a group holds at most \<^verbatim>\<open>MAXIMUM_PROC_PER_GROUP\<close> of them.
\<close>

definition MAXIMUM_PROC_PER_GROUP :: int where
  "MAXIMUM_PROC_PER_GROUP = 64"

definition NULL_HANDLE :: tid where
  "NULL_HANDLE = 0"

text \<open>
  The idiom \<^verbatim>\<open>WriteConsoleA(h, message, (DWORD)strlen(message), NULL, NULL)\<close> on a string
  literal.
\<close>

definition write_literal :: "stream \<Rightarrow> string \<Rightarrow> event" where
  "write_literal h message = WriteConsoleA h (c_str message) (strlen (c_str message))"

text \<open>Lines 89--91 and 106--107: the spawn loop from index \<open>i\<close>.\<close>

function win_spawn_loop ::
  "win_env \<Rightarrow> int \<Rightarrow> int \<Rightarrow> (int \<rightharpoonup> tid) \<Rightarrow> event list \<times> (int + (int \<rightharpoonup> tid))" where
  "win_spawn_loop env n i threads =
     (if i < n then
        (if CreateThread env i = NULL_HANDLE then ([Create i None], Inl i)
         else
           (case win_spawn_loop env n (i + 1) (threads(i \<mapsto> CreateThread env i)) of
              (es, r) \<Rightarrow> (Create i (Some (CreateThread env i)) # es, r)))
      else ([], Inr threads))"
  by pat_completeness auto
termination
  by (relation "measure (\<lambda>(env, n, i, threads). nat (n - i))") auto

text \<open>
  Lines 92--105: what \<^verbatim>\<open>main\<close> does once the spawn for slot \<open>i\<close> has failed. The count
  given to \<^verbatim>\<open>WriteConsoleA\<close> on line 96 is \<^verbatim>\<open>strlen(message)\<close>, the length of the format
  string, while the bytes come from \<^verbatim>\<open>messageBuffer\<close>.
\<close>

definition win_spawn_failed :: "win_env \<Rightarrow> int \<Rightarrow> event list" where
  "win_spawn_failed env i =
     (let message = ''ERROR: Failed to create thread %d.\<newline>'' in
      case StringCchPrintfA (stack_bytes env) 128 (sprintf_d message i) of
        (res, messageBuffer) \<Rightarrow>
          (if res = S_OK then
             [WriteConsoleA Stderr messageBuffer (strlen (c_str message)), Free]
           else
             [write_literal Stderr ''ERROR: Failed to create a thread\<newline>'', Free]))"

text \<open>Lines 109--120: the startup line.\<close>

definition win_announce :: "win_env \<Rightarrow> int \<Rightarrow> event" where
  "win_announce env numThreads =
     (let message = ''Started %d worker threads\<newline>'' in
      case StringCchPrintfA (stack_bytes env) 128 (sprintf_d message numThreads) of
        (res, messageBuffer) \<Rightarrow>
          (if res = S_OK then WriteConsoleA Stdout messageBuffer (strlen messageBuffer)
           else write_literal Stdout ''Started worker threads\<newline>''))"

text \<open>Lines 124--126: the loop that closes the handles, from index \<open>i\<close>.\<close>

function win_close_loop :: "int \<Rightarrow> int \<Rightarrow> (int \<rightharpoonup> tid) \<Rightarrow> event list" where
  "win_close_loop n i threads =
     (if i < n then Close (threads i) # win_close_loop n (i + 1) threads else [])"
  by pat_completeness auto
termination
  by (relation "measure (\<lambda>(n, i, threads). nat (n - i))") auto

text \<open>
  Lines 46--131: \<^verbatim>\<open>main\<close>. \<^verbatim>\<open>ExitProcess(EXIT_FAILURE)\<close> ends the calls with that
  status. \<^verbatim>\<open>WaitForMultipleObjects(numThreads, threads, TRUE, INFINITE)\<close> is one call on
  the slots \<open>0\<close> to \<^verbatim>\<open>numThreads - 1\<close> of the handle sequence.
\<close>

definition win_main :: "win_env \<Rightarrow> event list \<times> int" where
  "win_main env =
     (if \<not> stdout_handle_ok env then
        ([Get_handle Stdout False,
          Debug_out ''ERROR: Failed to initialize standard output''],
         EXIT_FAILURE)
      else if \<not> stderr_handle_ok env then
        ([Get_handle Stdout True, Get_handle Stderr False,
          Debug_out ''ERROR: Failed to initialize standard error ouput''],
         EXIT_FAILURE)
      else if \<not> ctrl_handler_ok env then
        ([Get_handle Stdout True, Get_handle Stderr True, Install_ctrl False,
          write_literal Stderr ''ERROR: Failed to set console ctrl handler\<newline>''],
         EXIT_FAILURE)
      else
        (let numThreads = sint (dwNumberOfProcessors env);
             startup = [Get_handle Stdout True, Get_handle Stderr True, Install_ctrl True,
                        Query_cpus]
         in if numThreads \<le> 0 then
              (startup @
                 [write_literal Stderr ''ERROR: Failed to get number of processors\<newline>''],
               EXIT_FAILURE)
            else if \<not> heap_alloc_ok env then
              (startup @ [Alloc numThreads False,
                 write_literal Stderr ''ERROR: Failed to allocate memory for threads\<newline>''],
               EXIT_FAILURE)
            else
              (case win_spawn_loop env numThreads 0 Map.empty of
                 (spawns, Inl i) \<Rightarrow>
                   (startup @ [Alloc numThreads True] @ spawns @ win_spawn_failed env i,
                    EXIT_FAILURE)
               | (spawns, Inr threads) \<Rightarrow>
                   (startup @ [Alloc numThreads True] @ spawns @
                      [win_announce env numThreads,
                       Wait_all (map threads [0..numThreads - 1])] @
                      win_close_loop numThreads 0 threads @ [Free],
                    EXIT_SUCCESS))))"

text \<open>
  Lines 140--160: \<^verbatim>\<open>ExitHandler\<close>; \<open>buf\<close> is what its own uninitialised
  \<^verbatim>\<open>messageBuffer\<close> holds. It returns \<^verbatim>\<open>TRUE\<close> after the store to \<^verbatim>\<open>stop\<close>.
\<close>

definition ExitHandler :: "string \<Rightarrow> 32 word \<Rightarrow> event list" where
  "ExitHandler buf signal =
     (let message = ''Received exit signal %lu: Exiting...\<newline>'' in
      case StringCchPrintfA buf 128 (sprintf_lu message signal) of
        (res, messageBuffer) \<Rightarrow>
          [if res = S_OK then WriteConsoleA Stderr messageBuffer (strlen messageBuffer)
           else write_literal Stderr ''Received exit signal: Exiting...\<newline>'',
           Set_stop 1])"

section \<open>The process: supervisor, workers and signal handler together\<close>

text \<open>
  The threads of the process share the variable \<^verbatim>\<open>stop\<close> (lines 41 and 171). A state of
  the process holds that variable, the calls \<^verbatim>\<open>main\<close> still has to make, the state of
  every worker, the handler activations under way, what was written so far and every value
  of \<^verbatim>\<open>stop\<close> that a worker has read, in the order of the reads. A schedule is a list of
  actions, each one step of one thread or the delivery of a signal; the operating system is
  free to choose any schedule. Accesses to the \<^verbatim>\<open>volatile\<close> variable are taken to be
  atomic and sequentially consistent.

  A handler activation takes its steps like a thread of its own. On POSIX it runs on top
  of a thread it interrupts, so the model admits more interleavings than can occur, which
  is harmless for what holds under every schedule.

  Bytes given to \<^verbatim>\<open>WriteConsoleA\<close>, or to \<^verbatim>\<open>fprintf\<close> on \<^verbatim>\<open>stderr\<close>, reach their stream
  with the call. Bytes given to \<^verbatim>\<open>fprintf\<close> on \<^verbatim>\<open>stdout\<close> go through the buffer of the C
  library: when standard output is a terminal the stream is line buffered and complete
  lines are written at once; otherwise it is fully buffered and, as the program never
  calls \<^verbatim>\<open>fflush\<close>, the bytes are written when \<^verbatim>\<open>main\<close> returns. A process ended by a signal
  writes nothing more. (A full buffer would be written too; the buffer holds at least 256
  bytes and the runs evaluated below stay under that.)

  \<^verbatim>\<open>pthread_join\<close> and \<^verbatim>\<open>WaitForMultipleObjects\<close> are enabled only once the awaited
  workers have returned (their results are not tested by the program, and they are taken
  to wait as documented). A signal whose handler is not installed ends the process (the
  default action). Once \<^verbatim>\<open>main\<close> has returned, or \<^verbatim>\<open>ExitProcess\<close> was called, no thread
  takes a step any more.
\<close>

datatype wstate = Spinning | Returned | Joined

datatype pstate = Running | Exited int | Killed int

datatype buffering = Unbuffered | Line_buffered | Fully_buffered

record process =
  stop :: int
  supervisor :: "event list"
  main_status :: int
  handler :: "int \<Rightarrow> event list"
  installed :: "int \<Rightarrow> bool"
  pending :: "event list list"
  workers :: "tid \<rightharpoonup> wstate"
  console :: "(stream \<times> string) list"
  stdout_mode :: buffering
  stdio_buffer :: string
  observed :: "int list"
  state :: pstate

text \<open>
  Lines 133--138 and 213--218: one evaluation of the loop condition \<^verbatim>\<open>!stop\<close> of
  \<^verbatim>\<open>CpuHeater\<close> and \<^verbatim>\<open>cpu_heater\<close> on the value read; the worker spins on while it is
  zero and returns otherwise.
\<close>

definition cpu_heater :: "int \<Rightarrow> wstate" where
  "cpu_heater stop_read = (if stop_read = 0 then Spinning else Returned)"

text \<open>
  The buffer of \<^verbatim>\<open>stdout\<close>. \<open>complete_lines s\<close> splits \<open>s\<close> behind its last newline;
  \<open>stdio_put\<close> is what \<^verbatim>\<open>fprintf(stdout, ...)\<close> does with its bytes, \<open>flush_stdio\<close> what
  the return from \<^verbatim>\<open>main\<close> does with the buffer.
\<close>

definition complete_lines :: "string \<Rightarrow> string \<times> string" where
  "complete_lines s =
     (rev (dropWhile (\<lambda>c. c \<noteq> CHR ''\<newline>'') (rev s)),
      rev (takeWhile (\<lambda>c. c \<noteq> CHR ''\<newline>'') (rev s)))"

definition stdio_put :: "string \<Rightarrow> process \<Rightarrow> process" where
  "stdio_put s p =
     (case stdout_mode p of
        Unbuffered \<Rightarrow> p\<lparr>console := console p @ [(Stdout, s)]\<rparr>
      | Line_buffered \<Rightarrow>
          (case complete_lines (stdio_buffer p @ s) of
             (lines, rest) \<Rightarrow>
               if lines = [] then p\<lparr>stdio_buffer := rest\<rparr>
               else p\<lparr>console := console p @ [(Stdout, lines)], stdio_buffer := rest\<rparr>)
      | Fully_buffered \<Rightarrow> p\<lparr>stdio_buffer := stdio_buffer p @ s\<rparr>)"

definition flush_stdio :: "process \<Rightarrow> process" where
  "flush_stdio p =
     (if stdio_buffer p = [] then p
      else p\<lparr>console := console p @ [(Stdout, stdio_buffer p)], stdio_buffer := []\<rparr>)"

text \<open>The effect of one call on the process; \<open>None\<close> when the call blocks.\<close>

fun exec_call :: "event \<Rightarrow> process \<Rightarrow> process option" where
  "exec_call (Install sig ok) p =
     Some (if ok then p\<lparr>installed := (installed p)(sig := True)\<rparr> else p)"
| "exec_call (Install_ctrl ok) p =
     Some (if ok then p\<lparr>installed := (\<lambda>sig. True)\<rparr> else p)"
| "exec_call (Create i r) p =
     Some (case r of None \<Rightarrow> p | Some t \<Rightarrow> p\<lparr>workers := (workers p)(t \<mapsto> Spinning)\<rparr>)"
| "exec_call (Write h s) p =
     Some (if h = Stdout then stdio_put s p else p\<lparr>console := console p @ [(h, s)]\<rparr>)"
| "exec_call (Set_stop v) p = Some (p\<lparr>stop := v\<rparr>)"
| "exec_call (Join r) p =
     (case r of
        None \<Rightarrow> None
      | Some t \<Rightarrow>
          if workers p t = Some Returned then Some (p\<lparr>workers := (workers p)(t \<mapsto> Joined)\<rparr>)
          else None)"
| "exec_call (Wait_all rs) p =
     (if list_all (\<lambda>r. case r of None \<Rightarrow> False | Some t \<Rightarrow> workers p t = Some Returned) rs
      then Some p else None)"
| "exec_call e p = Some p"

datatype action = Main | Worker tid | Signal int | Handler nat

fun step :: "action \<Rightarrow> process \<Rightarrow> process option" where
  "step Main p =
     (if state p \<noteq> Running then None
      else case supervisor p of
             [] \<Rightarrow> Some ((flush_stdio p)\<lparr>state := Exited (main_status p)\<rparr>)
           | e # es \<Rightarrow> map_option (\<lambda>q. q\<lparr>supervisor := es\<rparr>) (exec_call e p))"
| "step (Worker t) p =
     (if state p \<noteq> Running \<or> workers p t \<noteq> Some Spinning then None
      else Some (p\<lparr>observed := observed p @ [stop p],
                   workers := (workers p)(t \<mapsto> cpu_heater (stop p))\<rparr>))"
| "step (Signal sig) p =
     (if state p \<noteq> Running then None
      else if installed p sig then Some (p\<lparr>pending := pending p @ [handler p sig]\<rparr>)
      else Some (p\<lparr>state := Killed sig\<rparr>))"
| "step (Handler k) p =
     (if state p \<noteq> Running \<or> length (pending p) \<le> k then None
      else case pending p ! k of
             [] \<Rightarrow> None
           | e # es \<Rightarrow> map_option (\<lambda>q. q\<lparr>pending := (pending q)[k := es]\<rparr>) (exec_call e p))"

fun run :: "action list \<Rightarrow> process \<Rightarrow> process option" where
  "run [] p = Some p"
| "run (a # as) p = (case step a p of None \<Rightarrow> None | Some q \<Rightarrow> run as q)"

text \<open>
  The process at its start: \<^verbatim>\<open>stop\<close> is zero, no handler is installed, no worker exists
  and nothing is buffered. On POSIX \<^verbatim>\<open>stdout\<close> is line buffered on a terminal and fully
  buffered otherwise; the Windows program writes with \<^verbatim>\<open>WriteConsoleA\<close>, unbuffered.
\<close>

definition boot ::
  "event list \<times> int \<Rightarrow> (int \<Rightarrow> event list) \<Rightarrow> buffering \<Rightarrow> process" where
  "boot m h mode =
     \<lparr>stop = 0, supervisor = fst m, main_status = snd m, handler = h,
      installed = (\<lambda>sig. False), pending = [], workers = Map.empty, console = [],
      stdout_mode = mode, stdio_buffer = [], observed = [], state = Running\<rparr>"

definition posix_process :: "posix_env \<Rightarrow> process" where
  "posix_process env =
     boot (posix_main env) exit_handler
       (if stdout_interactive env then Line_buffered else Fully_buffered)"

definition win_process :: "win_env \<Rightarrow> process" where
  "win_process env =
     boot (win_main env) (\<lambda>sig. ExitHandler (stack_bytes env) (word_of_int sig)) Unbuffered"

text \<open>
  What holds of the flag in every state the process can reach: \<^verbatim>\<open>main\<close> has no store to
  \<^verbatim>\<open>stop\<close> left to make, every store a handler makes stores 1, the flag is 0 or 1, and the
  values read so far never went down.
\<close>

definition flag_inv :: "process \<Rightarrow> bool" where
  "flag_inv p \<longleftrightarrow>
     (\<forall>v. Set_stop v \<notin> set (supervisor p)) \<and>
     (\<forall>sig v. Set_stop v \<in> set (handler p sig) \<longrightarrow> v = 1) \<and>
     (\<forall>h \<in> set (pending p). \<forall>v. Set_stop v \<in> set h \<longrightarrow> v = 1) \<and>
     (stop p = 0 \<or> stop p = 1) \<and>
     sorted (observed p) \<and> set (observed p) \<subseteq> {0, stop p}"

text \<open>
  How far \<^verbatim>\<open>main\<close> has come: the calls of \<^verbatim>\<open>main\<close> are the ones already made followed by
  the ones still to make; if a call that waits for workers was made, the flag is set; an
  exited process has made all its calls and carries the status of \<^verbatim>\<open>main\<close>; a worker that
  has returned has seen the flag set; and a set flag means a handler activation exists.
\<close>

definition blocking :: "event \<Rightarrow> bool" where
  "blocking e \<longleftrightarrow> (case e of Join r \<Rightarrow> True | Wait_all rs \<Rightarrow> rs \<noteq> [] | _ \<Rightarrow> False)"

definition progress_inv :: "event list \<Rightarrow> int \<Rightarrow> process \<Rightarrow> bool" where
  "progress_inv calls status p \<longleftrightarrow>
     main_status p = status \<and>
     (\<exists>made. calls = made @ supervisor p \<and> ((\<exists>e \<in> set made. blocking e) \<longrightarrow> stop p \<noteq> 0)) \<and>
     (\<forall>s. state p = Exited s \<longrightarrow> supervisor p = [] \<and> s = status) \<and>
     (\<forall>t. workers p t = Some Returned \<or> workers p t = Some Joined \<longrightarrow> stop p \<noteq> 0) \<and>
     (stop p \<noteq> 0 \<longrightarrow> pending p \<noteq> [])"

section \<open>Concrete systems\<close>

text \<open>
  A system with \<open>n\<close> processors on which every call succeeds; the thread created for
  slot \<open>i\<close> gets the handle \<open>100 + i\<close>, and standard output is a terminal. Failing systems are obtained from these by
  record update.
\<close>

definition posix_ok :: "32 word \<Rightarrow> posix_env" where
  "posix_ok n =
     \<lparr>sysconf_nprocs = n, signal_ok = (\<lambda>sig. True), malloc_ok = True,
      pthread_create_rc = (\<lambda>i. 0), pthread_create_id = (\<lambda>i. 100 + nat i),
      stdout_interactive = True\<rparr>"

definition win_ok :: "32 word \<Rightarrow> win_env" where
  "win_ok n =
     \<lparr>stdout_handle_ok = True, stderr_handle_ok = True, ctrl_handler_ok = True,
      dwNumberOfProcessors = n, heap_alloc_ok = True, CreateThread = (\<lambda>i. 100 + nat i),
      stack_bytes = replicate 128 (CHR ''#'')\<rparr>"

text \<open>
  A schedule on a one-processor POSIX system: \<^verbatim>\<open>main\<close> runs up to the startup line, the
  worker spins, \<^verbatim>\<open>SIGINT\<close> arrives, its handler prints and sets the flag while the worker
  keeps reading, the worker returns, \<^verbatim>\<open>main\<close> joins it, frees and returns.
\<close>

definition clean_shutdown :: "action list" where
  "clean_shutdown =
     [Main, Main, Main, Main, Main, Main, Worker 100, Signal 2, Handler 0, Worker 100,
      Handler 0, Worker 100, Main, Main, Main]"

text \<open>
  The calls of the POSIX \<^verbatim>\<open>main\<close> on one processor up to and including the startup
  line; the next call is \<^verbatim>\<open>pthread_join\<close>.
\<close>

definition up_to_the_wait :: "action list" where
  "up_to_the_wait = [Main, Main, Main, Main, Main, Main]"

section \<open>Facts about the model\<close>

declare posix_spawn_loop.simps [simp del] posix_join_loop.simps [simp del]
  win_spawn_loop.simps [simp del] win_close_loop.simps [simp del] dec_nat.simps [simp del]

subsection \<open>The loops\<close>

lemma posix_spawn_loop_all_ok:
  "(\<And>j. i \<le> j \<Longrightarrow> j < n \<Longrightarrow> pthread_create_rc env j = 0) \<Longrightarrow>
   posix_spawn_loop env n i threads =
     (map (\<lambda>j. Create j (Some (pthread_create_id env j))) [i..n - 1],
      Inr (\<lambda>j. if i \<le> j \<and> j < n then Some (pthread_create_id env j) else threads j))"
proof (induction env n i threads rule: posix_spawn_loop.induct)
  case (1 env n i threads)
  show ?case
  proof (cases "i < n")
    case True
    have ok: "pthread_create_rc env i = 0"
      using True "1.prems" by simp
    have rest: "posix_spawn_loop env n (i + 1) (threads(i \<mapsto> pthread_create_id env i)) =
      (map (\<lambda>j. Create j (Some (pthread_create_id env j))) [i + 1..n - 1],
       Inr (\<lambda>j. if i + 1 \<le> j \<and> j < n then Some (pthread_create_id env j)
                else (threads(i \<mapsto> pthread_create_id env i)) j))"
      using True ok "1.prems" by (intro "1.IH") simp_all
    have range: "[i..n - 1] = i # [i + 1..n - 1]"
      using True by (simp add: upto_rec1)
    show ?thesis
      using True ok
      by (subst posix_spawn_loop.simps) (auto simp: rest range fun_eq_iff)
  next
    case False
    then show ?thesis
      by (subst posix_spawn_loop.simps) (auto simp: fun_eq_iff)
  qed
qed

lemma posix_spawn_loop_fails_at:
  "i \<le> k \<Longrightarrow> k < n \<Longrightarrow> pthread_create_rc env k \<noteq> 0 \<Longrightarrow>
   (\<And>j. i \<le> j \<Longrightarrow> j < k \<Longrightarrow> pthread_create_rc env j = 0) \<Longrightarrow>
   posix_spawn_loop env n i threads =
     (map (\<lambda>j. Create j (Some (pthread_create_id env j))) [i..k - 1] @ [Create k None], Inl k)"
proof (induction env n i threads rule: posix_spawn_loop.induct)
  case (1 env n i threads)
  show ?case
  proof (cases "i = k")
    case True
    then show ?thesis
      using "1.prems" by (subst posix_spawn_loop.simps) simp
  next
    case False
    then have lt: "i < k" and ok: "pthread_create_rc env i = 0"
      using "1.prems" by simp_all
    have rest: "posix_spawn_loop env n (i + 1) (threads(i \<mapsto> pthread_create_id env i)) =
      (map (\<lambda>j. Create j (Some (pthread_create_id env j))) [i + 1..k - 1] @ [Create k None],
       Inl k)"
      using lt ok "1.prems" by (intro "1.IH") simp_all
    have range: "[i..k - 1] = i # [i + 1..k - 1]"
      using lt by (simp add: upto_rec1)
    show ?thesis
      using lt ok "1.prems"
      by (subst posix_spawn_loop.simps) (simp add: rest range)
  qed
qed

lemma posix_join_loop_eq:
  "posix_join_loop n i threads = map (\<lambda>j. Join (threads j)) [i..n - 1]"
proof (induction n i threads rule: posix_join_loop.induct)
  case (1 n i threads)
  show ?case
  proof (cases "i < n")
    case True
    then show ?thesis
      using "1.IH" by (subst posix_join_loop.simps) (simp add: upto_rec1)
  next
    case False
    then show ?thesis
      by (subst posix_join_loop.simps) simp
  qed
qed

lemma win_spawn_loop_all_ok:
  "(\<And>j. i \<le> j \<Longrightarrow> j < n \<Longrightarrow> CreateThread env j \<noteq> NULL_HANDLE) \<Longrightarrow>
   win_spawn_loop env n i threads =
     (map (\<lambda>j. Create j (Some (CreateThread env j))) [i..n - 1],
      Inr (\<lambda>j. if i \<le> j \<and> j < n then Some (CreateThread env j) else threads j))"
proof (induction env n i threads rule: win_spawn_loop.induct)
  case (1 env n i threads)
  show ?case
  proof (cases "i < n")
    case True
    have ok: "CreateThread env i \<noteq> NULL_HANDLE"
      using True "1.prems" by simp
    have rest: "win_spawn_loop env n (i + 1) (threads(i \<mapsto> CreateThread env i)) =
      (map (\<lambda>j. Create j (Some (CreateThread env j))) [i + 1..n - 1],
       Inr (\<lambda>j. if i + 1 \<le> j \<and> j < n then Some (CreateThread env j)
                else (threads(i \<mapsto> CreateThread env i)) j))"
      using True ok "1.prems" by (intro "1.IH") simp_all
    have range: "[i..n - 1] = i # [i + 1..n - 1]"
      using True by (simp add: upto_rec1)
    show ?thesis
      using True ok
      by (subst win_spawn_loop.simps) (auto simp: rest range fun_eq_iff)
  next
    case False
    then show ?thesis
      by (subst win_spawn_loop.simps) (auto simp: fun_eq_iff)
  qed
qed

lemma win_spawn_loop_fails_at:
  "i \<le> k \<Longrightarrow> k < n \<Longrightarrow> CreateThread env k = NULL_HANDLE \<Longrightarrow>
   (\<And>j. i \<le> j \<Longrightarrow> j < k \<Longrightarrow> CreateThread env j \<noteq> NULL_HANDLE) \<Longrightarrow>
   win_spawn_loop env n i threads =
     (map (\<lambda>j. Create j (Some (CreateThread env j))) [i..k - 1] @ [Create k None], Inl k)"
proof (induction env n i threads rule: win_spawn_loop.induct)
  case (1 env n i threads)
  show ?case
  proof (cases "i = k")
    case True
    then show ?thesis
      using "1.prems" by (subst win_spawn_loop.simps) simp
  next
    case False
    then have lt: "i < k" and ok: "CreateThread env i \<noteq> NULL_HANDLE"
      using "1.prems" by simp_all
    have rest: "win_spawn_loop env n (i + 1) (threads(i \<mapsto> CreateThread env i)) =
      (map (\<lambda>j. Create j (Some (CreateThread env j))) [i + 1..k - 1] @ [Create k None],
       Inl k)"
      using lt ok "1.prems" by (intro "1.IH") simp_all
    have range: "[i..k - 1] = i # [i + 1..k - 1]"
      using lt by (simp add: upto_rec1)
    show ?thesis
      using lt ok "1.prems"
      by (subst win_spawn_loop.simps) (simp add: rest range)
  qed
qed

lemma win_close_loop_eq:
  "win_close_loop n i threads = map (\<lambda>j. Close (threads j)) [i..n - 1]"
proof (induction n i threads rule: win_close_loop.induct)
  case (1 n i threads)
  show ?case
  proof (cases "i < n")
    case True
    then show ?thesis
      using "1.IH" by (subst win_close_loop.simps) (simp add: upto_rec1)
  next
    case False
    then show ?thesis
      by (subst win_close_loop.simps) simp
  qed
qed

subsection \<open>Strings and formatting\<close>

lemma strlen_c_str: "NUL \<notin> set s \<Longrightarrow> strlen (s @ NUL # rest) = length s"
  by (induction s) (auto simp: strlen_def)

lemma write_literal_eq: "NUL \<notin> set s \<Longrightarrow> write_literal h s = Write h s"
  by (simp add: write_literal_def WriteConsoleA_def c_str_def strlen_c_str)


lemma digit_char_not_NUL: "d < 10 \<Longrightarrow> NUL \<noteq> digit_char d"
proof -
  assume "d < 10"
  then consider "d = 0" | "d = 1" | "d = 2" | "d = 3" | "d = 4" | "d = 5" | "d = 6"
    | "d = 7" | "d = 8" | "d = 9"
    by atomize_elim presburger
  then show ?thesis
    by cases (simp_all add: digit_char_def NUL_def)
qed

lemma dec_nat_no_NUL: "NUL \<notin> set (dec_nat n)"
proof (induction n rule: dec_nat.induct)
  case (1 n)
  show ?case
  proof (cases "n < 10")
    case True
    then show ?thesis
      by (subst dec_nat.simps) (simp add: digit_char_not_NUL)
  next
    case False
    then show ?thesis
      using "1.IH" by (subst dec_nat.simps) (simp add: digit_char_not_NUL)
  qed
qed

lemma dec_nat_length_pos: "0 < length (dec_nat n)"
  by (subst dec_nat.simps) simp

lemma dec_nat_length_le: "0 < k \<Longrightarrow> n < 10 ^ k \<Longrightarrow> length (dec_nat n) \<le> k"
proof (induction k arbitrary: n)
  case 0
  then show ?case by simp
next
  case (Suc k)
  show ?case
  proof (cases "n < 10")
    case True
    then show ?thesis
      by (subst dec_nat.simps) simp
  next
    case False
    then have k: "0 < k"
      using Suc.prems by (cases k) simp_all
    have "n < 10 * 10 ^ k"
      using Suc.prems by simp
    then have "n div 10 < 10 ^ k"
      by (simp add: div_less_iff_less_mult mult.commute)
    then have "length (dec_nat (n div 10)) \<le> k"
      using k by (intro Suc.IH)
    then show ?thesis
      using False by (subst dec_nat.simps) simp
  qed
qed

lemma dec_nat_length_gt: "10 ^ k \<le> n \<Longrightarrow> k < length (dec_nat n)"
proof (induction k arbitrary: n)
  case 0
  show ?case using dec_nat_length_pos [of n] by simp
next
  case (Suc k)
  have "(1::nat) \<le> 10 ^ k"
    by simp
  then have "(10::nat) \<le> 10 ^ Suc k"
    by simp
  then have big: "\<not> n < 10"
    using Suc.prems by linarith
  have "10 * 10 ^ k \<le> n"
    using Suc.prems by simp
  then have "10 ^ k \<le> n div 10"
    by (simp add: less_eq_div_iff_mult_less_eq mult.commute)
  then have "k < length (dec_nat (n div 10))"
    by (rule Suc.IH)
  then show ?case
    using big by (subst dec_nat.simps) simp
qed


lemma fmt_d_nonneg: "0 \<le> i \<Longrightarrow> fmt_d i = dec_nat (nat i)"
  by (simp add: fmt_d_def)

lemma fmt_d_no_NUL: "0 \<le> i \<Longrightarrow> NUL \<notin> set (fmt_d i)"
  by (simp add: fmt_d_nonneg dec_nat_no_NUL)

lemma fmt_d_length_le: "0 \<le> i \<Longrightarrow> i < 2 ^ 31 \<Longrightarrow> length (fmt_d i) \<le> 10"
proof -
  assume "0 \<le> i" and "i < 2 ^ 31"
  then have "nat i < 10 ^ 10"
    by simp
  then have "length (dec_nat (nat i)) \<le> 10"
    by (intro dec_nat_length_le) simp_all
  then show ?thesis
    using \<open>0 \<le> i\<close> by (simp add: fmt_d_nonneg)
qed

lemma fmt_lu_no_NUL: "NUL \<notin> set (fmt_lu w)"
  by (simp add: fmt_lu_def dec_nat_no_NUL)

lemma fmt_lu_length_le: "length (fmt_lu w) \<le> 10"
proof -
  have "unat w < 2 ^ 32"
    using unsigned_less [of w] by simp
  then have "unat w < 10 ^ 10"
    by simp
  then show ?thesis
    unfolding fmt_lu_def by (intro dec_nat_length_le) simp_all
qed

lemma sprintf_started:
  "sprintf_d ''Started %d worker threads\<newline>'' n =
     ''Started '' @ fmt_d n @ '' worker threads\<newline>''"
  by simp

lemma sprintf_create_failed:
  "sprintf_d ''ERROR: Failed to create thread %d.\<newline>'' k =
     ''ERROR: Failed to create thread '' @ fmt_d k @ ''.\<newline>''"
  by simp

lemma sprintf_error_creating:
  "sprintf_d ''Error creating thread %d.\<newline>'' k =
     ''Error creating thread '' @ fmt_d k @ ''.\<newline>''"
  by simp

lemma sprintf_received_d:
  "sprintf_d ''Received exit signal %d: Exiting...\<newline>'' sig =
     ''Received exit signal '' @ fmt_d sig @ '': Exiting...\<newline>''"
  by simp

lemma sprintf_received_lu:
  "sprintf_lu ''Received exit signal %lu: Exiting...\<newline>'' w =
     ''Received exit signal '' @ fmt_lu w @ '': Exiting...\<newline>''"
  by simp

lemma StringCchPrintfA_fits:
  "length s < cch \<Longrightarrow> StringCchPrintfA buf cch s = (S_OK, s @ NUL # drop (Suc (length s)) buf)"
  by (simp add: StringCchPrintfA_def)

lemma write_buffer:
  "NUL \<notin> set s \<Longrightarrow> WriteConsoleA h (s @ NUL # rest) (strlen (s @ NUL # rest)) = Write h s"
  by (simp add: WriteConsoleA_def strlen_c_str)

lemma win_announce_eq:
  assumes "0 \<le> n" and "n < 2 ^ 31"
  shows "win_announce env n = Write Stdout (''Started '' @ fmt_d n @ '' worker threads\<newline>'')"
proof -
  have len: "length (''Started '' @ fmt_d n @ '' worker threads\<newline>'') < 128"
    using fmt_d_length_le [OF assms] by simp
  have nul: "NUL \<notin> set (''Started '' @ fmt_d n @ '' worker threads\<newline>'')"
    using fmt_d_no_NUL [OF assms(1)] by (simp add: NUL_def)
  show ?thesis
    unfolding win_announce_def Let_def sprintf_started StringCchPrintfA_fits [OF len]
    by (simp only: prod.case simp_thms if_True write_buffer [OF nul])
qed

lemma ExitHandler_eq:
  "ExitHandler buf w =
     [Write Stderr (''Received exit signal '' @ fmt_lu w @ '': Exiting...\<newline>''), Set_stop 1]"
proof -
  have len: "length (''Received exit signal '' @ fmt_lu w @ '': Exiting...\<newline>'') < 128"
    using fmt_lu_length_le [of w] by simp
  have nul: "NUL \<notin> set (''Received exit signal '' @ fmt_lu w @ '': Exiting...\<newline>'')"
    using fmt_lu_no_NUL [of w] by (simp add: NUL_def)
  show ?thesis
    unfolding ExitHandler_def Let_def sprintf_received_lu StringCchPrintfA_fits [OF len]
    by (simp only: prod.case simp_thms if_True write_buffer [OF nul])
qed

subsection \<open>Observations on call sequences\<close>

lemma written_append: "written h (xs @ ys) = written h xs @ written h ys"
  by (induction h xs rule: written.induct) simp_all

lemma spawn_attempts_append: "spawn_attempts (xs @ ys) = spawn_attempts xs @ spawn_attempts ys"
  by (induction xs rule: spawn_attempts.induct) simp_all

lemma spawned_append: "spawned (xs @ ys) = spawned xs @ spawned ys"
  by (induction xs rule: spawned.induct) simp_all

lemma joined_append: "joined (xs @ ys) = joined xs @ joined ys"
  by (induction xs rule: joined.induct) simp_all

lemma waited_append: "waited (xs @ ys) = waited xs @ waited ys"
  by (induction xs rule: waited.induct) simp_all

lemma closed_append: "closed (xs @ ys) = closed xs @ closed ys"
  by (induction xs rule: closed.induct) simp_all

lemmas observe_append =
  written_append spawn_attempts_append spawned_append joined_append waited_append closed_append

lemma observe_creates:
  "written h (map (\<lambda>j. Create j (Some (f j))) js) = []"
  "spawn_attempts (map (\<lambda>j. Create j (Some (f j))) js) = js"
  "spawned (map (\<lambda>j. Create j (Some (f j))) js) = map f js"
  "joined (map (\<lambda>j. Create j (Some (f j))) js) = []"
  "waited (map (\<lambda>j. Create j (Some (f j))) js) = []"
  "closed (map (\<lambda>j. Create j (Some (f j))) js) = []"
  by (induction js) simp_all

lemma observe_joins:
  "written h (map (\<lambda>j. Join (g j)) js) = []"
  "spawn_attempts (map (\<lambda>j. Join (g j)) js) = []"
  "spawned (map (\<lambda>j. Join (g j)) js) = []"
  "joined (map (\<lambda>j. Join (g j)) js) = map g js"
  "waited (map (\<lambda>j. Join (g j)) js) = []"
  "closed (map (\<lambda>j. Join (g j)) js) = []"
  by (induction js) simp_all

lemma observe_closes:
  "written h (map (\<lambda>j. Close (g j)) js) = []"
  "spawn_attempts (map (\<lambda>j. Close (g j)) js) = []"
  "spawned (map (\<lambda>j. Close (g j)) js) = []"
  "joined (map (\<lambda>j. Close (g j)) js) = []"
  "waited (map (\<lambda>j. Close (g j)) js) = []"
  "closed (map (\<lambda>j. Close (g j)) js) = map g js"
  by (induction js) simp_all

subsection \<open>The two supervisors, run to the end\<close>

lemma posix_main_all_ok:
  assumes pos: "0 < sint (sysconf_nprocs env)"
    and mem: "malloc_ok env"
    and ok: "\<And>j. 0 \<le> j \<Longrightarrow> j < sint (sysconf_nprocs env) \<Longrightarrow> pthread_create_rc env j = 0"
  shows "posix_main env =
    ([Query_cpus, Install SIGINT (signal_ok env SIGINT), Install SIGTERM (signal_ok env SIGTERM),
      Alloc (sint (sysconf_nprocs env)) True] @
     map (\<lambda>j. Create j (Some (pthread_create_id env j))) [0..sint (sysconf_nprocs env) - 1] @
     [Write Stdout (''Started '' @ fmt_d (sint (sysconf_nprocs env)) @ '' worker threads\<newline>'')] @
     map (\<lambda>j. Join (Some (pthread_create_id env j))) [0..sint (sysconf_nprocs env) - 1] @
     [Free],
     EXIT_SUCCESS)"
proof -
  let ?n = "sint (sysconf_nprocs env)"
  have loop: "posix_spawn_loop env ?n 0 Map.empty =
    (map (\<lambda>j. Create j (Some (pthread_create_id env j))) [0..?n - 1],
     Inr (\<lambda>j. if 0 \<le> j \<and> j < ?n then Some (pthread_create_id env j) else None))"
    using ok by (rule posix_spawn_loop_all_ok)
  have joins: "map (\<lambda>j. Join (if 0 \<le> j \<and> j < ?n then Some (pthread_create_id env j) else None))
      [0..?n - 1] = map (\<lambda>j. Join (Some (pthread_create_id env j))) [0..?n - 1]"
    by (rule map_cong) simp_all
  show ?thesis
    using pos mem
    by (simp add: posix_main_def Let_def loop posix_join_loop_eq joins sprintf_started
        del: sprintf_d.simps)
qed

lemma posix_main_spawn_fails:
  assumes k: "0 \<le> k" "k < sint (sysconf_nprocs env)"
    and mem: "malloc_ok env"
    and bad: "pthread_create_rc env k \<noteq> 0"
    and ok: "\<And>j. 0 \<le> j \<Longrightarrow> j < k \<Longrightarrow> pthread_create_rc env j = 0"
  shows "posix_main env =
    ([Query_cpus, Install SIGINT (signal_ok env SIGINT), Install SIGTERM (signal_ok env SIGTERM),
      Alloc (sint (sysconf_nprocs env)) True] @
     map (\<lambda>j. Create j (Some (pthread_create_id env j))) [0..k - 1] @
     [Create k None,
      Write Stderr (''Error creating thread '' @ fmt_d k @ ''.\<newline>''),
      Free],
     EXIT_FAILURE)"
proof -
  let ?n = "sint (sysconf_nprocs env)"
  have loop: "posix_spawn_loop env ?n 0 Map.empty =
    (map (\<lambda>j. Create j (Some (pthread_create_id env j))) [0..k - 1] @ [Create k None], Inl k)"
    using k bad ok by (intro posix_spawn_loop_fails_at) simp_all
  show ?thesis
    using k mem
    by (simp add: posix_main_def Let_def loop sprintf_error_creating del: sprintf_d.simps)
qed


lemma sint32_lt: "sint (w :: 32 word) < 2 ^ 31"
  using sint_lt [of w] by simp

lemma take_terminator: "m \<le> 1 \<Longrightarrow> take m (c # rest) = take m [c]"
  by (cases m) simp_all

lemma win_spawn_failed_eq:
  assumes "0 \<le> k" and "k < 2 ^ 31"
  shows "win_spawn_failed env k =
    [Write Stderr
       (take 35 ((''ERROR: Failed to create thread '' @ fmt_d k @ ''.\<newline>'') @ [NUL])),
     Free]"
proof -
  let ?s = "''ERROR: Failed to create thread '' @ fmt_d k @ ''.\<newline>''"
  have digits: "0 < length (fmt_d k)"
    using assms(1) dec_nat_length_pos [of "nat k"] by (simp add: fmt_d_nonneg)
  have len: "length ?s < 128"
    using fmt_d_length_le [OF assms] by simp
  have template: "strlen (c_str ''ERROR: Failed to create thread %d.\<newline>'') = 35"
    unfolding c_str_def
    by (subst append_Nil [of "[]", symmetric], subst append_Cons [symmetric],
        subst strlen_c_str) (simp_all add: NUL_def)
  have short: "35 - length ?s \<le> 1"
    using digits by (cases "fmt_d k") simp_all
  have "take (35 - length ?s) (NUL # drop (Suc (length ?s)) (stack_bytes env)) =
      take (35 - length ?s) [NUL]"
    using short by (rule take_terminator)
  then have "take 35 (?s @ NUL # drop (Suc (length ?s)) (stack_bytes env)) =
      take 35 (?s @ [NUL])"
    by (simp only: take_append)
  then show ?thesis
    unfolding win_spawn_failed_def Let_def sprintf_create_failed StringCchPrintfA_fits [OF len]
      template
    by (simp only: prod.case simp_thms if_True WriteConsoleA_def)
qed

lemma win_main_all_ok:
  assumes con: "stdout_handle_ok env" "stderr_handle_ok env" "ctrl_handler_ok env"
    and pos: "0 < sint (dwNumberOfProcessors env)"
    and mem: "heap_alloc_ok env"
    and ok: "\<And>j. 0 \<le> j \<Longrightarrow> j < sint (dwNumberOfProcessors env) \<Longrightarrow>
               CreateThread env j \<noteq> NULL_HANDLE"
  shows "win_main env =
    ([Get_handle Stdout True, Get_handle Stderr True, Install_ctrl True, Query_cpus,
      Alloc (sint (dwNumberOfProcessors env)) True] @
     map (\<lambda>j. Create j (Some (CreateThread env j))) [0..sint (dwNumberOfProcessors env) - 1] @
     [Write Stdout
        (''Started '' @ fmt_d (sint (dwNumberOfProcessors env)) @ '' worker threads\<newline>''),
      Wait_all (map (\<lambda>j. Some (CreateThread env j)) [0..sint (dwNumberOfProcessors env) - 1])] @
     map (\<lambda>j. Close (Some (CreateThread env j))) [0..sint (dwNumberOfProcessors env) - 1] @
     [Free],
     EXIT_SUCCESS)"
proof -
  let ?n = "sint (dwNumberOfProcessors env)"
  let ?threads = "\<lambda>j. if 0 \<le> j \<and> j < ?n then Some (CreateThread env j) else None"
  have loop: "win_spawn_loop env ?n 0 Map.empty =
    (map (\<lambda>j. Create j (Some (CreateThread env j))) [0..?n - 1], Inr ?threads)"
    using ok by (rule win_spawn_loop_all_ok)
  have slots: "map ?threads [0..?n - 1] = map (\<lambda>j. Some (CreateThread env j)) [0..?n - 1]"
    by (rule map_cong) simp_all
  have closes: "map (\<lambda>j. Close (?threads j)) [0..?n - 1] =
      map (\<lambda>j. Close (Some (CreateThread env j))) [0..?n - 1]"
    by (rule map_cong) simp_all
  have line: "win_announce env ?n = Write Stdout (''Started '' @ fmt_d ?n @ '' worker threads\<newline>'')"
    using pos sint32_lt [of "dwNumberOfProcessors env"] by (intro win_announce_eq) simp_all
  show ?thesis
    using con pos mem
    by (simp add: win_main_def Let_def loop win_close_loop_eq slots closes line)
qed

lemma win_main_spawn_fails:
  assumes con: "stdout_handle_ok env" "stderr_handle_ok env" "ctrl_handler_ok env"
    and k: "0 \<le> k" "k < sint (dwNumberOfProcessors env)"
    and mem: "heap_alloc_ok env"
    and bad: "CreateThread env k = NULL_HANDLE"
    and ok: "\<And>j. 0 \<le> j \<Longrightarrow> j < k \<Longrightarrow> CreateThread env j \<noteq> NULL_HANDLE"
  shows "win_main env =
    ([Get_handle Stdout True, Get_handle Stderr True, Install_ctrl True, Query_cpus,
      Alloc (sint (dwNumberOfProcessors env)) True] @
     map (\<lambda>j. Create j (Some (CreateThread env j))) [0..k - 1] @
     [Create k None,
      Write Stderr
        (take 35 ((''ERROR: Failed to create thread '' @ fmt_d k @ ''.\<newline>'') @ [NUL])),
      Free],
     EXIT_FAILURE)"
proof -
  let ?n = "sint (dwNumberOfProcessors env)"
  have loop: "win_spawn_loop env ?n 0 Map.empty =
    (map (\<lambda>j. Create j (Some (CreateThread env j))) [0..k - 1] @ [Create k None], Inl k)"
    using k bad ok by (intro win_spawn_loop_fails_at) simp_all
  have msg: "win_spawn_failed env k =
    [Write Stderr
       (take 35 ((''ERROR: Failed to create thread '' @ fmt_d k @ ''.\<newline>'') @ [NUL])),
     Free]"
    using k sint32_lt [of "dwNumberOfProcessors env"] by (intro win_spawn_failed_eq) simp_all
  show ?thesis
    using con k mem
    by (simp add: win_main_def Let_def loop msg)
qed

lemma split_at_stdout_write:
  assumes "\<And>e. e \<in> set before \<Longrightarrow> \<not> is_stdout_write e"
  shows "takeWhile (\<lambda>e. \<not> is_stdout_write e) (before @ Write Stdout s # rest) = before"
    and "dropWhile (\<lambda>e. \<not> is_stdout_write e) (before @ Write Stdout s # rest) =
      Write Stdout s # rest"
  using assms by (simp_all add: takeWhile_append2 dropWhile_append2)

lemma fmt_d_one_digit: "0 \<le> k \<Longrightarrow> k < 10 \<Longrightarrow> length (fmt_d k) = 1"
  by (simp add: fmt_d_nonneg dec_nat.simps)

lemma fmt_d_two_digits: "10 \<le> k \<Longrightarrow> k < 100 \<Longrightarrow> length (fmt_d k) = 2"
proof -
  assume k: "10 \<le> k" "k < 100"
  have "length (dec_nat (nat k)) \<le> 2"
    using k by (intro dec_nat_length_le) simp_all
  moreover have "1 < length (dec_nat (nat k))"
    using k by (intro dec_nat_length_gt) simp_all
  ultimately show ?thesis
    using k by (simp add: fmt_d_nonneg)
qed

lemma fmt_d_three_digits: "100 \<le> k \<Longrightarrow> 2 < length (fmt_d k)"
proof -
  assume k: "100 \<le> k"
  have "2 < length (dec_nat (nat k))"
    using k by (intro dec_nat_length_gt) simp_all
  then show ?thesis
    using k by (simp add: fmt_d_nonneg)
qed

lemma cut_cases:
  "length s + 1 = n \<Longrightarrow> take n (s @ [c]) = s @ [c]"
  "length s = n \<Longrightarrow> take n (s @ [c]) = s"
  "n < length s \<Longrightarrow> take n (s @ [c]) = take n s"
  by auto

subsection \<open>The flag in the running process\<close>

lemma stdio_put_fields [simp]:
  "stop (stdio_put s p) = stop p"
  "supervisor (stdio_put s p) = supervisor p"
  "main_status (stdio_put s p) = main_status p"
  "handler (stdio_put s p) = handler p"
  "installed (stdio_put s p) = installed p"
  "pending (stdio_put s p) = pending p"
  "workers (stdio_put s p) = workers p"
  "observed (stdio_put s p) = observed p"
  "state (stdio_put s p) = state p"
  "stdout_mode (stdio_put s p) = stdout_mode p"
  by (simp_all add: stdio_put_def split: buffering.splits prod.splits)

lemma flush_stdio_fields [simp]:
  "stop (flush_stdio p) = stop p"
  "supervisor (flush_stdio p) = supervisor p"
  "main_status (flush_stdio p) = main_status p"
  "handler (flush_stdio p) = handler p"
  "installed (flush_stdio p) = installed p"
  "pending (flush_stdio p) = pending p"
  "workers (flush_stdio p) = workers p"
  "observed (flush_stdio p) = observed p"
  "state (flush_stdio p) = state p"
  "stdout_mode (flush_stdio p) = stdout_mode p"
  by (simp_all add: flush_stdio_def)

lemma exec_call_frame:
  "exec_call e p = Some q \<Longrightarrow>
   supervisor q = supervisor p \<and> pending q = pending p \<and> handler q = handler p \<and>
   observed q = observed p \<and> state q = state p \<and> main_status q = main_status p"
  by (cases e) (auto split: option.splits if_splits)

lemma exec_call_stop:
  "exec_call e p = Some q \<Longrightarrow> stop q = (case e of Set_stop v \<Rightarrow> v | _ \<Rightarrow> stop p)"
  by (cases e) (auto split: option.splits if_splits)

lemma exec_call_flag_inv:
  assumes "exec_call e p = Some q" and "\<And>v. e = Set_stop v \<Longrightarrow> v = 1" and "flag_inv p"
  shows "(stop q = 0 \<or> stop q = 1) \<and> sorted (observed q) \<and> set (observed q) \<subseteq> {0, stop q}"
proof (cases "\<exists>v. e = Set_stop v")
  case True
  then have "e = Set_stop 1"
    using assms(2) by auto
  then have "stop q = 1" and "observed q = observed p"
    using assms(1) by auto
  moreover have "set (observed p) \<subseteq> {0, 1}"
    using assms(3) unfolding flag_inv_def by auto
  ultimately show ?thesis
    using assms(3) unfolding flag_inv_def by simp
next
  case False
  then have "stop q = stop p"
    using exec_call_stop [OF assms(1)] by (cases e) simp_all
  moreover have "observed q = observed p"
    using exec_call_frame [OF assms(1)] by simp
  ultimately show ?thesis
    using assms(3) unfolding flag_inv_def by simp
qed

lemma step_flag_inv:
  assumes "step a p = Some q" and "flag_inv p"
  shows "flag_inv q"
proof (cases a)
  case Main
  show ?thesis
  proof (cases "supervisor p")
    case Nil
    then have "q = (flush_stdio p)\<lparr>state := Exited (main_status p)\<rparr>"
      using assms(1) Main by (simp split: if_splits)
    then show ?thesis
      using assms(2) by (simp add: flag_inv_def)
  next
    case (Cons e es)
    then obtain r where r: "exec_call e p = Some r" and q: "q = r\<lparr>supervisor := es\<rparr>"
      using assms(1) Main by (auto split: if_splits)
    have "\<And>v. e = Set_stop v \<Longrightarrow> v = 1"
      using assms(2) Cons unfolding flag_inv_def by auto
    from exec_call_flag_inv [OF r this assms(2)] exec_call_frame [OF r]
    show ?thesis
      using assms(2) Cons q unfolding flag_inv_def by auto
  qed
next
  case (Worker t)
  then have q: "q = p\<lparr>observed := observed p @ [stop p],
      workers := (workers p)(t \<mapsto> cpu_heater (stop p))\<rparr>"
    using assms(1) by (simp split: if_splits)
  have "sorted (observed p @ [stop p])"
    using assms(2) unfolding flag_inv_def by (auto simp: sorted_append)
  then show ?thesis
    using assms(2) q unfolding flag_inv_def by auto
next
  case (Signal sig)
  then have "q = p\<lparr>pending := pending p @ [handler p sig]\<rparr> \<or> q = p\<lparr>state := Killed sig\<rparr>"
    using assms(1) by (auto split: if_splits)
  then show ?thesis
    using assms(2) unfolding flag_inv_def by auto
next
  case (Handler k)
  then have k: "k < length (pending p)"
    using assms(1) by (simp split: if_splits)
  then obtain e es r where act: "pending p ! k = e # es"
    and r: "exec_call e p = Some r" and q: "q = r\<lparr>pending := (pending r)[k := es]\<rparr>"
    using assms(1) Handler by (auto split: if_splits list.splits)
  have mem: "e # es \<in> set (pending p)"
    using k act by (metis nth_mem)
  then have one: "\<And>v. e = Set_stop v \<Longrightarrow> v = 1"
    using assms(2) unfolding flag_inv_def by auto
  have rest: "\<forall>h \<in> set ((pending p)[k := es]). \<forall>v. Set_stop v \<in> set h \<longrightarrow> v = 1"
  proof (intro ballI allI impI)
    fix h v
    assume "h \<in> set ((pending p)[k := es])" and v: "Set_stop v \<in> set h"
    then have "h = es \<or> h \<in> set (pending p)"
      using set_update_subset_insert [of "pending p" k es] by auto
    then show "v = 1"
      using v mem assms(2) unfolding flag_inv_def by auto
  qed
  from exec_call_flag_inv [OF r one assms(2)] exec_call_frame [OF r]
  show ?thesis
    using assms(2) q rest unfolding flag_inv_def by auto
qed

lemma run_flag_inv: "run sched p = Some q \<Longrightarrow> flag_inv p \<Longrightarrow> flag_inv q"
proof (induction sched arbitrary: p)
  case Nil
  then show ?case by simp
next
  case (Cons a sched)
  then show ?case
    by (auto split: option.splits dest: step_flag_inv)
qed

lemma step_changes_stop:
  assumes "step a p = Some q" and "stop q \<noteq> stop p" and "flag_inv p"
  shows "(\<exists>k. a = Handler k) \<and> stop q = 1"
proof (cases a)
  case Main
  show ?thesis
  proof (cases "supervisor p")
    case Nil
    then show ?thesis
      using assms(1,2) Main by (auto split: if_splits)
  next
    case (Cons e es)
    then obtain r where r: "exec_call e p = Some r" and q: "q = r\<lparr>supervisor := es\<rparr>"
      using assms(1) Main by (auto split: if_splits)
    have "\<not> (\<exists>v. e = Set_stop v)"
      using assms(3) Cons unfolding flag_inv_def by auto
    then have "stop r = stop p"
      using exec_call_stop [OF r] by (cases e) simp_all
    then show ?thesis
      using assms(2) q by simp
  qed
next
  case (Worker t)
  then show ?thesis
    using assms(1,2) by (auto split: if_splits)
next
  case (Signal sig)
  then show ?thesis
    using assms(1,2) by (auto split: if_splits)
next
  case (Handler k)
  have "flag_inv q"
    using assms(1,3) by (rule step_flag_inv)
  then have "stop q = 0 \<or> stop q = 1"
    unfolding flag_inv_def by simp
  moreover have "stop p = 0 \<or> stop p = 1"
    using assms(3) unfolding flag_inv_def by simp
  moreover have "stop p = 1 \<Longrightarrow> stop q = 1"
  proof -
    assume one: "stop p = 1"
    have k: "k < length (pending p)"
      using assms(1) Handler by (simp split: if_splits)
    then obtain e es r where act: "pending p ! k = e # es"
      and r: "exec_call e p = Some r" and q: "q = r\<lparr>pending := (pending r)[k := es]\<rparr>"
      using assms(1) Handler by (auto split: if_splits list.splits)
    have "e # es \<in> set (pending p)"
      using k act by (metis nth_mem)
    then have "\<And>v. e = Set_stop v \<Longrightarrow> v = 1"
      using assms(3) unfolding flag_inv_def by auto
    then have "stop r = 1"
      using exec_call_stop [OF r] one by (cases e) auto
    then show "stop q = 1"
      using q by simp
  qed
  ultimately show ?thesis
    using assms(2) Handler by auto
qed

lemma run_keeps_stop:
  "run sched p = Some q \<Longrightarrow> flag_inv p \<Longrightarrow> stop p \<noteq> 0 \<Longrightarrow> stop q \<noteq> 0"
proof (induction sched arbitrary: p)
  case Nil
  then show ?case by simp
next
  case (Cons a sched)
  then obtain r where r: "step a p = Some r" and rest: "run sched r = Some q"
    by (auto split: option.splits)
  have inv: "flag_inv r"
    using r Cons.prems(2) by (rule step_flag_inv)
  have "stop r \<noteq> 0"
  proof (cases "stop r = stop p")
    case True
    then show ?thesis using Cons.prems(3) by simp
  next
    case False
    then show ?thesis
      using step_changes_stop [OF r False Cons.prems(2)] by simp
  qed
  then show ?case
    using Cons.IH [OF rest inv] by simp
qed

lemma posix_spawn_loop_creates:
  "posix_spawn_loop env n i threads = (es, r) \<Longrightarrow> e \<in> set es \<Longrightarrow> \<exists>j c. e = Create j c"
proof (induction env n i threads arbitrary: es r rule: posix_spawn_loop.induct)
  case (1 env n i threads)
  show ?case
  proof (cases "i < n \<and> pthread_create_rc env i = 0")
    case True
    obtain es' r' where rest:
      "posix_spawn_loop env n (i + 1) (threads(i \<mapsto> pthread_create_id env i)) = (es', r')"
      by (cases "posix_spawn_loop env n (i + 1) (threads(i \<mapsto> pthread_create_id env i))")
    have "es = Create i (Some (pthread_create_id env i)) # es'"
      using "1.prems"(1) True rest by (subst (asm) posix_spawn_loop.simps) simp
    then show ?thesis
      using "1.prems"(2) "1.IH" [OF _ _ rest] True by auto
  next
    case False
    then show ?thesis
      using "1.prems" by (subst (asm) posix_spawn_loop.simps) (auto split: if_splits)
  qed
qed

lemma win_spawn_loop_creates:
  "win_spawn_loop env n i threads = (es, r) \<Longrightarrow> e \<in> set es \<Longrightarrow> \<exists>j c. e = Create j c"
proof (induction env n i threads arbitrary: es r rule: win_spawn_loop.induct)
  case (1 env n i threads)
  show ?case
  proof (cases "i < n \<and> CreateThread env i \<noteq> NULL_HANDLE")
    case True
    obtain es' r' where rest:
      "win_spawn_loop env n (i + 1) (threads(i \<mapsto> CreateThread env i)) = (es', r')"
      by (cases "win_spawn_loop env n (i + 1) (threads(i \<mapsto> CreateThread env i))")
    have "es = Create i (Some (CreateThread env i)) # es'"
      using "1.prems"(1) True rest by (subst (asm) win_spawn_loop.simps) simp
    then show ?thesis
      using "1.prems"(2) "1.IH" [OF _ _ rest] True by auto
  next
    case False
    then show ?thesis
      using "1.prems" by (subst (asm) win_spawn_loop.simps) (auto split: if_splits)
  qed
qed

lemma posix_main_never_stores: "Set_stop v \<notin> set (fst (posix_main env))"
  by (auto simp: posix_main_def Let_def posix_join_loop_eq
      split: prod.splits sum.splits dest: posix_spawn_loop_creates)

lemma win_main_never_stores: "Set_stop v \<notin> set (fst (win_main env))"
  by (auto simp: win_main_def Let_def win_close_loop_eq win_spawn_failed_def win_announce_def
      write_literal_def WriteConsoleA_def
      split: prod.splits sum.splits if_splits dest: win_spawn_loop_creates)

lemma flag_inv_boot:
  "(\<And>v. Set_stop v \<notin> set (fst m)) \<Longrightarrow> (\<And>sig v. Set_stop v \<in> set (h sig) \<Longrightarrow> v = 1) \<Longrightarrow>
   flag_inv (boot m h mode)"
  by (auto simp: flag_inv_def boot_def)

lemma flag_inv_posix_process: "flag_inv (posix_process env)"
  unfolding posix_process_def
  by (rule flag_inv_boot) (auto simp: posix_main_never_stores exit_handler_def)

lemma flag_inv_win_process: "flag_inv (win_process env)"
  unfolding win_process_def
  by (rule flag_inv_boot) (auto simp: win_main_never_stores ExitHandler_eq)

lemma sorted_reads_monotonic:
  "sorted xs \<Longrightarrow> set xs \<subseteq> {0, 1 :: int} \<Longrightarrow> i < j \<Longrightarrow> j < length xs \<Longrightarrow> xs ! i \<noteq> 0 \<Longrightarrow>
   xs ! j \<noteq> 0"
proof -
  assume s: "sorted xs" and sub: "set xs \<subseteq> {0, 1 :: int}" and ij: "i < j" "j < length xs"
    and nz: "xs ! i \<noteq> 0"
  have "xs ! i \<le> xs ! j"
    using s ij by (simp add: sorted_nth_mono)
  moreover have "xs ! i \<in> {0, 1}"
    using sub ij by (meson less_trans nth_mem subsetD)
  ultimately show ?thesis
    using nz by auto
qed

lemma posix_main_one_cpu:
  "signal_ok env = ok \<Longrightarrow> sysconf_nprocs env = 1 \<Longrightarrow> malloc_ok env \<Longrightarrow>
   pthread_create_rc env = (\<lambda>i. 0) \<Longrightarrow> pthread_create_id env = (\<lambda>i. 100 + nat i) \<Longrightarrow>
   posix_main env =
     ([Query_cpus, Install SIGINT (ok SIGINT), Install SIGTERM (ok SIGTERM), Alloc 1 True,
       Create 0 (Some 100), Write Stdout ''Started 1 worker threads\<newline>'',
       Join (Some 100), Free], 0)"
  by (simp add: posix_main_all_ok EXIT_SUCCESS_def fmt_d_def dec_nat.simps digit_char_def)

lemma clean_shutdown_run:
  assumes "posix_main env =
     ([Query_cpus, Install SIGINT True, Install SIGTERM term_ok, Alloc 1 True,
       Create 0 (Some 100), Write Stdout ''Started 1 worker threads\<newline>'',
       Join (Some 100), Free], 0)"
  shows "map_option (\<lambda>p. (stop p, observed p, console p, state p))
      (run clean_shutdown (posix_process env)) =
    Some (1, [0, 0, 1],
      (if stdout_interactive env
       then [(Stdout, ''Started 1 worker threads\<newline>''),
             (Stdout, ''Received exit signal 2: Exiting...\<newline>'')]
       else [(Stdout, ''Started 1 worker threads\<newline>'' @
                      ''Received exit signal 2: Exiting...\<newline>'')]),
      Exited 0)"
proof (cases "stdout_interactive env")
  case True
  then show ?thesis
    by (cases term_ok)
      (simp_all add: clean_shutdown_def posix_process_def boot_def assms SIGINT_def SIGTERM_def
        exit_handler_def cpu_heater_def fmt_d_def dec_nat.simps digit_char_def
        stdio_put_def flush_stdio_def complete_lines_def)
next
  case False
  then show ?thesis
    by (cases term_ok)
      (simp_all add: clean_shutdown_def posix_process_def boot_def assms SIGINT_def SIGTERM_def
        exit_handler_def cpu_heater_def fmt_d_def dec_nat.simps digit_char_def
        stdio_put_def flush_stdio_def complete_lines_def)
qed

subsection \<open>Exit status\<close>

lemma posix_spawn_loop_result:
  "(\<exists>threads'. snd (posix_spawn_loop env n i threads) = Inr threads') \<longleftrightarrow>
   (\<forall>j. i \<le> j \<and> j < n \<longrightarrow> pthread_create_rc env j = 0)"
proof (induction env n i threads rule: posix_spawn_loop.induct)
  case (1 env n i threads)
  show ?case
  proof (cases "i < n")
    case False
    then show ?thesis
      by (subst posix_spawn_loop.simps) simp
  next
    case True
    show ?thesis
    proof (cases "pthread_create_rc env i = 0")
      case False
      then show ?thesis
        using True by (subst posix_spawn_loop.simps) auto
    next
      case ok: True
      have unfold: "snd (posix_spawn_loop env n i threads) =
          snd (posix_spawn_loop env n (i + 1) (threads(i \<mapsto> pthread_create_id env i)))"
        using True ok by (subst posix_spawn_loop.simps) (simp split: prod.splits)
      have shift: "(\<forall>j. i + 1 \<le> j \<and> j < n \<longrightarrow> pthread_create_rc env j = 0) \<longleftrightarrow>
          (\<forall>j. i \<le> j \<and> j < n \<longrightarrow> pthread_create_rc env j = 0)"
      proof
        assume later: "\<forall>j. i + 1 \<le> j \<and> j < n \<longrightarrow> pthread_create_rc env j = 0"
        show "\<forall>j. i \<le> j \<and> j < n \<longrightarrow> pthread_create_rc env j = 0"
        proof (intro allI impI)
          fix j
          assume "i \<le> j \<and> j < n"
          then have "j = i \<or> (i + 1 \<le> j \<and> j < n)"
            by auto
          then show "pthread_create_rc env j = 0"
            using ok later by auto
        qed
      next
        assume "\<forall>j. i \<le> j \<and> j < n \<longrightarrow> pthread_create_rc env j = 0"
        then show "\<forall>j. i + 1 \<le> j \<and> j < n \<longrightarrow> pthread_create_rc env j = 0"
          by simp
      qed
      have later: "(\<exists>threads'. snd (posix_spawn_loop env n (i + 1) (threads(i \<mapsto> pthread_create_id env i))) =
          Inr threads') \<longleftrightarrow> (\<forall>j. i + 1 \<le> j \<and> j < n \<longrightarrow> pthread_create_rc env j = 0)"
        using True ok by (intro "1.IH") simp_all
      show ?thesis
        by (simp only: unfold later shift)
    qed
  qed
qed

lemma win_spawn_loop_result:
  "(\<exists>threads'. snd (win_spawn_loop env n i threads) = Inr threads') \<longleftrightarrow>
   (\<forall>j. i \<le> j \<and> j < n \<longrightarrow> CreateThread env j \<noteq> NULL_HANDLE)"
proof (induction env n i threads rule: win_spawn_loop.induct)
  case (1 env n i threads)
  show ?case
  proof (cases "i < n")
    case False
    then show ?thesis
      by (subst win_spawn_loop.simps) simp
  next
    case True
    show ?thesis
    proof (cases "CreateThread env i = NULL_HANDLE")
      case True
      then show ?thesis
        using \<open>i < n\<close> by (subst win_spawn_loop.simps) auto
    next
      case ok: False
      have unfold: "snd (win_spawn_loop env n i threads) =
          snd (win_spawn_loop env n (i + 1) (threads(i \<mapsto> CreateThread env i)))"
        using True ok by (subst win_spawn_loop.simps) (simp split: prod.splits)
      have shift: "(\<forall>j. i + 1 \<le> j \<and> j < n \<longrightarrow> CreateThread env j \<noteq> NULL_HANDLE) \<longleftrightarrow>
          (\<forall>j. i \<le> j \<and> j < n \<longrightarrow> CreateThread env j \<noteq> NULL_HANDLE)"
      proof
        assume later: "\<forall>j. i + 1 \<le> j \<and> j < n \<longrightarrow> CreateThread env j \<noteq> NULL_HANDLE"
        show "\<forall>j. i \<le> j \<and> j < n \<longrightarrow> CreateThread env j \<noteq> NULL_HANDLE"
        proof (intro allI impI)
          fix j
          assume "i \<le> j \<and> j < n"
          then have "j = i \<or> (i + 1 \<le> j \<and> j < n)"
            by auto
          then show "CreateThread env j \<noteq> NULL_HANDLE"
            using ok later by auto
        qed
      next
        assume "\<forall>j. i \<le> j \<and> j < n \<longrightarrow> CreateThread env j \<noteq> NULL_HANDLE"
        then show "\<forall>j. i + 1 \<le> j \<and> j < n \<longrightarrow> CreateThread env j \<noteq> NULL_HANDLE"
          by simp
      qed
      have later: "(\<exists>threads'. snd (win_spawn_loop env n (i + 1) (threads(i \<mapsto> CreateThread env i))) =
          Inr threads') \<longleftrightarrow> (\<forall>j. i + 1 \<le> j \<and> j < n \<longrightarrow> CreateThread env j \<noteq> NULL_HANDLE)"
        using True ok by (intro "1.IH") simp_all
      show ?thesis
        by (simp only: unfold later shift)
    qed
  qed
qed

lemma posix_main_status:
  "snd (posix_main env) =
     (if 0 < sint (sysconf_nprocs env) \<and> malloc_ok env \<and>
         (\<forall>j. 0 \<le> j \<and> j < sint (sysconf_nprocs env) \<longrightarrow> pthread_create_rc env j = 0)
      then EXIT_SUCCESS else EXIT_FAILURE)"
proof -
  let ?n = "sint (sysconf_nprocs env)"
  obtain es r where loop: "posix_spawn_loop env ?n 0 Map.empty = (es, r)"
    by (cases "posix_spawn_loop env ?n 0 Map.empty")
  have "(\<exists>threads'. r = Inr threads') \<longleftrightarrow>
      (\<forall>j. 0 \<le> j \<and> j < ?n \<longrightarrow> pthread_create_rc env j = 0)"
    using posix_spawn_loop_result [of env ?n 0 Map.empty] loop by simp
  then show ?thesis
    by (cases r) (auto simp: posix_main_def Let_def loop)
qed

lemma win_main_status:
  "snd (win_main env) =
     (if stdout_handle_ok env \<and> stderr_handle_ok env \<and> ctrl_handler_ok env \<and>
         0 < sint (dwNumberOfProcessors env) \<and> heap_alloc_ok env \<and>
         (\<forall>j. 0 \<le> j \<and> j < sint (dwNumberOfProcessors env) \<longrightarrow>
            CreateThread env j \<noteq> NULL_HANDLE)
      then EXIT_SUCCESS else EXIT_FAILURE)"
proof -
  let ?n = "sint (dwNumberOfProcessors env)"
  obtain es r where loop: "win_spawn_loop env ?n 0 Map.empty = (es, r)"
    by (cases "win_spawn_loop env ?n 0 Map.empty")
  have "(\<exists>threads'. r = Inr threads') \<longleftrightarrow>
      (\<forall>j. 0 \<le> j \<and> j < ?n \<longrightarrow> CreateThread env j \<noteq> NULL_HANDLE)"
    using win_spawn_loop_result [of env ?n 0 Map.empty] loop by simp
  then show ?thesis
    by (cases r) (auto simp: win_main_def Let_def loop)
qed

lemma exec_call_workers:
  assumes "exec_call e p = Some q"
    and "\<forall>t. workers p t = Some Returned \<or> workers p t = Some Joined \<longrightarrow> stop p \<noteq> 0"
    and "\<And>v. e = Set_stop v \<Longrightarrow> v = 1"
  shows "\<forall>t. workers q t = Some Returned \<or> workers q t = Some Joined \<longrightarrow> stop q \<noteq> 0"
    and "blocking e \<Longrightarrow> stop q \<noteq> 0"
    and "stop p \<noteq> 0 \<Longrightarrow> stop q \<noteq> 0"
    and "stop q \<noteq> stop p \<Longrightarrow> (\<exists>v. e = Set_stop v)"
proof -
  show "\<forall>t. workers q t = Some Returned \<or> workers q t = Some Joined \<longrightarrow> stop q \<noteq> 0"
    using assms by (cases e) (auto split: option.splits if_splits)
  show "stop p \<noteq> 0 \<Longrightarrow> stop q \<noteq> 0"
    using assms by (cases e) (auto split: option.splits if_splits)
  show "stop q \<noteq> stop p \<Longrightarrow> (\<exists>v. e = Set_stop v)"
    using assms by (cases e) (auto split: option.splits if_splits)
  show "blocking e \<Longrightarrow> stop q \<noteq> 0"
  proof (cases e)
    case (Join r)
    then show ?thesis
      using assms by (auto split: option.splits if_splits)
  next
    case (Wait_all rs)
    assume "blocking e"
    then obtain r rest where rs: "rs = r # rest"
      using Wait_all by (cases rs) (simp_all add: blocking_def)
    have all: "list_all (\<lambda>r. case r of None \<Rightarrow> False | Some t \<Rightarrow> workers p t = Some Returned) rs"
      and same: "q = p"
      using assms(1) Wait_all by (auto split: if_splits)
    then have "case r of None \<Rightarrow> False | Some t \<Rightarrow> workers p t = Some Returned"
      using rs by simp
    then obtain t where "workers p t = Some Returned"
      by (cases r) simp_all
    then show ?thesis
      using assms(2) same by auto
  qed (simp_all add: blocking_def)
qed

lemma step_progress_inv:
  assumes "step a p = Some q" and "flag_inv p" and "progress_inv calls status p"
  shows "progress_inv calls status q"
proof -
  from assms(3) obtain made where made: "calls = made @ supervisor p"
    and blocked: "(\<exists>e \<in> set made. blocking e) \<longrightarrow> stop p \<noteq> 0"
    unfolding progress_inv_def by auto
  have st: "main_status p = status"
    and ex: "\<forall>s. state p = Exited s \<longrightarrow> supervisor p = [] \<and> s = status"
    and wk: "\<forall>t. workers p t = Some Returned \<or> workers p t = Some Joined \<longrightarrow> stop p \<noteq> 0"
    and pd: "stop p \<noteq> 0 \<longrightarrow> pending p \<noteq> []"
    using assms(3) unfolding progress_inv_def by auto
  have running: "state p = Running"
    using assms(1) by (cases a) (auto split: if_splits)
  show ?thesis
  proof (cases a)
    case Main
    show ?thesis
    proof (cases "supervisor p")
      case Nil
      then have "q = (flush_stdio p)\<lparr>state := Exited (main_status p)\<rparr>"
        using assms(1) Main running by simp
      then show ?thesis
        using assms(3) Nil st unfolding progress_inv_def by auto
    next
      case (Cons e es)
      then obtain r where r: "exec_call e p = Some r" and q: "q = r\<lparr>supervisor := es\<rparr>"
        using assms(1) Main running by auto
      have nostore: "\<And>v. e = Set_stop v \<Longrightarrow> v = 1"
        using assms(2) Cons unfolding flag_inv_def by auto
      have same: "stop r = stop p"
        using exec_call_workers(4) [OF r wk nostore] assms(2) Cons unfolding flag_inv_def
        by auto
      note fr = exec_call_frame [OF r]
      have "calls = (made @ [e]) @ supervisor q"
        using made Cons q by simp
      moreover have "(\<exists>x \<in> set (made @ [e]). blocking x) \<longrightarrow> stop q \<noteq> 0"
        using blocked exec_call_workers(2) [OF r wk nostore] same q by auto
      moreover have "\<forall>t. workers q t = Some Returned \<or> workers q t = Some Joined \<longrightarrow> stop q \<noteq> 0"
        using exec_call_workers(1) [OF r wk nostore] q by simp
      moreover have "stop q \<noteq> 0 \<longrightarrow> pending q \<noteq> []"
        using pd same fr q by simp
      moreover have "main_status q = status" and "state q = Running"
        using st running fr q by simp_all
      ultimately show ?thesis
        unfolding progress_inv_def by (metis pstate.distinct(1))
    qed
  next
    case (Worker t)
    then have q: "q = p\<lparr>observed := observed p @ [stop p],
        workers := (workers p)(t \<mapsto> cpu_heater (stop p))\<rparr>"
      using assms(1) by (simp split: if_splits)
    have "\<forall>u. workers q u = Some Returned \<or> workers q u = Some Joined \<longrightarrow> stop q \<noteq> 0"
      using wk q by (auto simp: cpu_heater_def split: if_splits)
    then show ?thesis
      using assms(3) q unfolding progress_inv_def by auto
  next
    case (Signal sig)
    then have "q = p\<lparr>pending := pending p @ [handler p sig]\<rparr> \<or> q = p\<lparr>state := Killed sig\<rparr>"
      using assms(1) by (auto split: if_splits)
    then show ?thesis
      using assms(3) unfolding progress_inv_def by auto
  next
    case (Handler k)
    then have k: "k < length (pending p)"
      using assms(1) by (simp split: if_splits)
    then obtain e es r where act: "pending p ! k = e # es"
      and r: "exec_call e p = Some r" and q: "q = r\<lparr>pending := (pending r)[k := es]\<rparr>"
      using assms(1) Handler by (auto split: if_splits list.splits)
    have "e # es \<in> set (pending p)"
      using k act by (metis nth_mem)
    then have one: "\<And>v. e = Set_stop v \<Longrightarrow> v = 1"
      using assms(2) unfolding flag_inv_def by auto
    note fr = exec_call_frame [OF r]
    have "calls = made @ supervisor q"
      using made fr q by simp
    moreover have "(\<exists>x \<in> set made. blocking x) \<longrightarrow> stop q \<noteq> 0"
      using blocked exec_call_workers(3) [OF r wk one] q by auto
    moreover have "\<forall>t. workers q t = Some Returned \<or> workers q t = Some Joined \<longrightarrow> stop q \<noteq> 0"
      using exec_call_workers(1) [OF r wk one] q by simp
    moreover have "pending q \<noteq> []"
      using k fr q by auto
    moreover have "main_status q = status" and "state q = Running"
      using st running fr q by simp_all
    ultimately show ?thesis
      unfolding progress_inv_def by (metis pstate.distinct(1))
  qed
qed

lemma run_progress_inv:
  "run sched p = Some q \<Longrightarrow> flag_inv p \<Longrightarrow> progress_inv calls status p \<Longrightarrow>
   progress_inv calls status q"
proof (induction sched arbitrary: p)
  case Nil
  then show ?case by simp
next
  case (Cons a sched)
  then obtain r where r: "step a p = Some r" and rest: "run sched r = Some q"
    by (auto split: option.splits)
  show ?case
    using Cons.IH [OF rest step_flag_inv [OF r Cons.prems(2)]
        step_progress_inv [OF r Cons.prems(2,3)]] .
qed

lemma progress_inv_boot: "progress_inv (fst m) (snd m) (boot m h mode)"
  by (simp add: progress_inv_def boot_def)

lemma exit_needs_blocking_calls_done:
  assumes "run sched (boot m h mode) = Some p" and "flag_inv (boot m h mode)"
    and "state p = Exited s" and "\<exists>e \<in> set (fst m). blocking e"
  shows "s = snd m \<and> supervisor p = [] \<and> stop p = 1 \<and> pending p \<noteq> []"
proof -
  have inv: "progress_inv (fst m) (snd m) p"
    using assms(1,2) progress_inv_boot by (rule run_progress_inv)
  have flag: "flag_inv p"
    using assms(1,2) by (rule run_flag_inv)
  from inv assms(3) have over: "supervisor p = []" "s = snd m"
    unfolding progress_inv_def by auto
  from inv obtain made where "fst m = made @ supervisor p"
    and "(\<exists>e \<in> set made. blocking e) \<longrightarrow> stop p \<noteq> 0"
    unfolding progress_inv_def by auto
  then have "stop p \<noteq> 0"
    using over assms(4) by simp
  moreover from this inv have "pending p \<noteq> []"
    unfolding progress_inv_def by simp
  moreover have "stop p = 0 \<or> stop p = 1"
    using flag unfolding flag_inv_def by simp
  ultimately show ?thesis
    using over by auto
qed

lemma exit_status_is_main_status:
  assumes "run sched (boot m h mode) = Some p" and "flag_inv (boot m h mode)" and "state p = Exited s"
  shows "s = snd m \<and> supervisor p = []"
proof -
  have "progress_inv (fst m) (snd m) p"
    using assms(1,2) progress_inv_boot by (rule run_progress_inv)
  then show ?thesis
    using assms(3) unfolding progress_inv_def by auto
qed

lemma posix_exit_status:
  assumes "run sched (posix_process env) = Some p" and "state p = Exited s"
  shows "s = (if 0 < sint (sysconf_nprocs env) \<and> malloc_ok env \<and>
               (\<forall>j. 0 \<le> j \<and> j < sint (sysconf_nprocs env) \<longrightarrow> pthread_create_rc env j = 0)
            then 0 else 1)"
    and "s = 0 \<Longrightarrow> supervisor p = [] \<and> stop p = 1 \<and> pending p \<noteq> []"
proof -
  let ?n = "sint (sysconf_nprocs env)"
  let ?mode = "if stdout_interactive env then Line_buffered else Fully_buffered"
  have start: "flag_inv (boot (posix_main env) exit_handler ?mode)"
    using flag_inv_posix_process [of env] by (simp add: posix_process_def)
  have run: "run sched (boot (posix_main env) exit_handler ?mode) = Some p"
    using assms(1) by (simp add: posix_process_def)
  have s: "s = snd (posix_main env)"
    using exit_status_is_main_status [OF run start assms(2)] by simp
  then show "s = (if 0 < ?n \<and> malloc_ok env \<and>
               (\<forall>j. 0 \<le> j \<and> j < ?n \<longrightarrow> pthread_create_rc env j = 0)
            then 0 else 1)"
    by (simp add: posix_main_status EXIT_SUCCESS_def EXIT_FAILURE_def)
  assume "s = 0"
  then have ok: "0 < ?n" "malloc_ok env" "\<And>j. 0 \<le> j \<Longrightarrow> j < ?n \<Longrightarrow> pthread_create_rc env j = 0"
    using s by (auto simp: posix_main_status EXIT_FAILURE_def split: if_splits)
  have "(0::int) \<in> set [0..?n - 1]"
    using ok(1) by simp
  then have "Join (Some (pthread_create_id env 0)) \<in> set (fst (posix_main env))"
    using ok by (simp add: posix_main_all_ok)
  moreover have "blocking (Join (Some (pthread_create_id env 0)))"
    by (simp add: blocking_def)
  ultimately have "\<exists>e \<in> set (fst (posix_main env)). blocking e"
    by blast
  from exit_needs_blocking_calls_done [OF run start assms(2) this]
  show "supervisor p = [] \<and> stop p = 1 \<and> pending p \<noteq> []"
    by simp
qed

lemma win_exit_status:
  assumes "run sched (win_process env) = Some p" and "state p = Exited s"
  shows "s = (if stdout_handle_ok env \<and> stderr_handle_ok env \<and> ctrl_handler_ok env \<and>
               0 < sint (dwNumberOfProcessors env) \<and> heap_alloc_ok env \<and>
               (\<forall>j. 0 \<le> j \<and> j < sint (dwNumberOfProcessors env) \<longrightarrow>
                  CreateThread env j \<noteq> NULL_HANDLE)
            then 0 else 1)"
    and "s = 0 \<Longrightarrow> supervisor p = [] \<and> stop p = 1 \<and> pending p \<noteq> []"
proof -
  let ?n = "sint (dwNumberOfProcessors env)"
  let ?h = "\<lambda>sig. ExitHandler (stack_bytes env) (word_of_int sig)"
  have start: "flag_inv (boot (win_main env) ?h Unbuffered)"
    using flag_inv_win_process [of env] by (simp add: win_process_def)
  have run: "run sched (boot (win_main env) ?h Unbuffered) = Some p"
    using assms(1) by (simp add: win_process_def)
  have s: "s = snd (win_main env)"
    using exit_status_is_main_status [OF run start assms(2)] by simp
  then show "s = (if stdout_handle_ok env \<and> stderr_handle_ok env \<and> ctrl_handler_ok env \<and>
               0 < ?n \<and> heap_alloc_ok env \<and>
               (\<forall>j. 0 \<le> j \<and> j < ?n \<longrightarrow> CreateThread env j \<noteq> NULL_HANDLE)
            then 0 else 1)"
    by (simp add: win_main_status EXIT_SUCCESS_def EXIT_FAILURE_def)
  assume "s = 0"
  then have ok: "stdout_handle_ok env" "stderr_handle_ok env" "ctrl_handler_ok env"
    "0 < ?n" "heap_alloc_ok env"
    "\<And>j. 0 \<le> j \<Longrightarrow> j < ?n \<Longrightarrow> CreateThread env j \<noteq> NULL_HANDLE"
    using s by (auto simp: win_main_status EXIT_FAILURE_def split: if_splits)
  have "[0..?n - 1] \<noteq> []"
    using ok(4) by simp
  then have wait: "blocking (Wait_all (map (\<lambda>j. Some (CreateThread env j)) [0..?n - 1]))"
    by (simp add: blocking_def)
  have "Wait_all (map (\<lambda>j. Some (CreateThread env j)) [0..?n - 1]) \<in> set (fst (win_main env))"
    using ok by (simp add: win_main_all_ok)
  then have "\<exists>e \<in> set (fst (win_main env)). blocking e"
    using wait by blast
  from exit_needs_blocking_calls_done [OF run start assms(2) this]
  show "supervisor p = [] \<and> stop p = 1 \<and> pending p \<noteq> []"
    by simp
qed

subsection \<open>A failed spawn\<close>

lemma posix_spawn_failure_is_fatal:
  assumes "0 \<le> k" "k < sint (sysconf_nprocs env)" "malloc_ok env"
    "pthread_create_rc env k \<noteq> 0" "\<And>j. 0 \<le> j \<Longrightarrow> j < k \<Longrightarrow> pthread_create_rc env j = 0"
  shows "snd (posix_main env) = 1"
    and "written Stderr (fst (posix_main env)) =
      [''Error creating thread '' @ dec_nat (nat k) @ ''.\<newline>'']"
    and "written Stdout (fst (posix_main env)) = []"
    and "joined (fst (posix_main env)) = []"
    and "spawn_attempts (fst (posix_main env)) = [0..k]"
    and "last (fst (posix_main env)) = Free"
proof -
  note run = posix_main_spawn_fails [OF assms]
  have range: "[0..k] = [0..k - 1] @ [k]"
    using assms(1) upto_rec2 [of 0 k] by simp
  show "snd (posix_main env) = 1"
    by (simp add: run EXIT_FAILURE_def)
  show "written Stderr (fst (posix_main env)) =
      [''Error creating thread '' @ dec_nat (nat k) @ ''.\<newline>'']"
    using assms(1) by (simp add: run observe_append observe_creates fmt_d_nonneg)
  show "written Stdout (fst (posix_main env)) = []"
    by (simp add: run observe_append observe_creates)
  show "joined (fst (posix_main env)) = []"
    by (simp add: run observe_append observe_creates)
  show "spawn_attempts (fst (posix_main env)) = [0..k]"
    by (simp add: run observe_append observe_creates range)
  show "last (fst (posix_main env)) = Free"
    by (simp add: run)
qed

lemma win_spawn_failure_is_fatal:
  assumes "stdout_handle_ok env" "stderr_handle_ok env" "ctrl_handler_ok env"
    "0 \<le> k" "k < sint (dwNumberOfProcessors env)" "heap_alloc_ok env"
    "CreateThread env k = NULL_HANDLE"
    "\<And>j. 0 \<le> j \<Longrightarrow> j < k \<Longrightarrow> CreateThread env j \<noteq> NULL_HANDLE"
  shows "snd (win_main env) = 1"
    and "written Stdout (fst (win_main env)) = []"
    and "waited (fst (win_main env)) = []"
    and "closed (fst (win_main env)) = []"
    and "spawn_attempts (fst (win_main env)) = [0..k]"
    and "last (fst (win_main env)) = Free"
    and "k < 10000 \<Longrightarrow> \<exists>rest. written Stderr (fst (win_main env)) =
      [''ERROR: Failed to create thread '' @ dec_nat (nat k) @ rest]"
proof -
  note run = win_main_spawn_fails [OF assms]
  have range: "[0..k] = [0..k - 1] @ [k]"
    using assms(4) upto_rec2 [of 0 k] by simp
  show "snd (win_main env) = 1"
    by (simp add: run EXIT_FAILURE_def)
  show "written Stdout (fst (win_main env)) = []"
    by (simp add: run observe_append observe_creates)
  show "waited (fst (win_main env)) = []"
    by (simp add: run observe_append observe_creates)
  show "closed (fst (win_main env)) = []"
    by (simp add: run observe_append observe_creates)
  show "spawn_attempts (fst (win_main env)) = [0..k]"
    by (simp add: run observe_append observe_creates range)
  show "last (fst (win_main env)) = Free"
    by (simp add: run)
  assume "k < 10000"
  then have "nat k < 10 ^ 4"
    by simp
  then have "length (dec_nat (nat k)) \<le> 4"
    by (intro dec_nat_length_le) simp_all
  then have short: "length (fmt_d k) \<le> 4"
    using assms(4) by (simp add: fmt_d_nonneg)
  let ?head = "''ERROR: Failed to create thread '' @ fmt_d k"
  have "length ?head \<le> 35"
    using short by simp
  then have "take 35 (?head @ (''.\<newline>'' @ [NUL])) =
      ?head @ take (35 - length ?head) (''.\<newline>'' @ [NUL])"
    by simp
  then have "written Stderr (fst (win_main env)) =
      [?head @ take (35 - length ?head) (''.\<newline>'' @ [NUL])]"
    by (simp add: run observe_append observe_creates)
  then show "\<exists>rest. written Stderr (fst (win_main env)) =
      [''ERROR: Failed to create thread '' @ dec_nat (nat k) @ rest]"
    using assms(4) by (simp add: fmt_d_nonneg)
qed

subsection \<open>The startup line and long indices\<close>

text \<open>
  The call that prints the startup line is made exactly once when all spawns succeed,
  after the last spawn and before any wait, on both platforms.
\<close>

lemma started_call_once_between_spawns_and_waits:
  "(0 < sint (sysconf_nprocs penv) \<and> malloc_ok penv \<and>
    (\<forall>j. 0 \<le> j \<and> j < sint (sysconf_nprocs penv) \<longrightarrow> pthread_create_rc penv j = 0) \<longrightarrow>
      written Stdout (fst (posix_main penv)) =
        [''Started '' @ dec_nat (nat (sint (sysconf_nprocs penv))) @ '' worker threads\<newline>''] \<and>
      length (spawned (takeWhile (\<lambda>e. \<not> is_stdout_write e) (fst (posix_main penv)))) =
        nat (sint (sysconf_nprocs penv)) \<and>
      joined (takeWhile (\<lambda>e. \<not> is_stdout_write e) (fst (posix_main penv))) = [] \<and>
      spawn_attempts (dropWhile (\<lambda>e. \<not> is_stdout_write e) (fst (posix_main penv))) = [] \<and>
      joined (dropWhile (\<lambda>e. \<not> is_stdout_write e) (fst (posix_main penv))) =
        map Some (spawned (fst (posix_main penv)))) \<and>
   (stdout_handle_ok wenv \<and> stderr_handle_ok wenv \<and> ctrl_handler_ok wenv \<and>
    0 < sint (dwNumberOfProcessors wenv) \<and> heap_alloc_ok wenv \<and>
    (\<forall>j. 0 \<le> j \<and> j < sint (dwNumberOfProcessors wenv) \<longrightarrow>
       CreateThread wenv j \<noteq> NULL_HANDLE) \<longrightarrow>
      written Stdout (fst (win_main wenv)) =
        [''Started '' @ dec_nat (nat (sint (dwNumberOfProcessors wenv))) @
         '' worker threads\<newline>''] \<and>
      length (spawned (takeWhile (\<lambda>e. \<not> is_stdout_write e) (fst (win_main wenv)))) =
        nat (sint (dwNumberOfProcessors wenv)) \<and>
      waited (takeWhile (\<lambda>e. \<not> is_stdout_write e) (fst (win_main wenv))) = [] \<and>
      spawn_attempts (dropWhile (\<lambda>e. \<not> is_stdout_write e) (fst (win_main wenv))) = [] \<and>
      waited (dropWhile (\<lambda>e. \<not> is_stdout_write e) (fst (win_main wenv))) =
        [map Some (spawned (fst (win_main wenv)))])"
proof (intro conjI impI)
  let ?n = "sint (sysconf_nprocs penv)"
  let ?before = "[Query_cpus, Install SIGINT (signal_ok penv SIGINT),
    Install SIGTERM (signal_ok penv SIGTERM), Alloc ?n True] @
    map (\<lambda>j. Create j (Some (pthread_create_id penv j))) [0..?n - 1]"
  let ?line = "''Started '' @ fmt_d ?n @ '' worker threads\<newline>''"
  let ?after = "map (\<lambda>j. Join (Some (pthread_create_id penv j))) [0..?n - 1] @ [Free]"
  assume h: "0 < ?n \<and> malloc_ok penv \<and>
    (\<forall>j. 0 \<le> j \<and> j < ?n \<longrightarrow> pthread_create_rc penv j = 0)"
  then have "posix_main penv =
        ([Query_cpus, Install SIGINT (signal_ok penv SIGINT),
          Install SIGTERM (signal_ok penv SIGTERM), Alloc ?n True] @
         map (\<lambda>j. Create j (Some (pthread_create_id penv j))) [0..?n - 1] @
         [Write Stdout ?line] @
         map (\<lambda>j. Join (Some (pthread_create_id penv j))) [0..?n - 1] @
         [Free],
         EXIT_SUCCESS)"
    by (intro posix_main_all_ok) simp_all
  then have run: "fst (posix_main penv) = ?before @ Write Stdout ?line # ?after"
    by simp
  have tw: "takeWhile (\<lambda>e. \<not> is_stdout_write e) (fst (posix_main penv)) = ?before"
    unfolding run by (rule split_at_stdout_write(1)) auto
  have dw: "dropWhile (\<lambda>e. \<not> is_stdout_write e) (fst (posix_main penv)) =
      Write Stdout ?line # ?after"
    unfolding run by (rule split_at_stdout_write(2)) auto
  have dec: "fmt_d ?n = dec_nat (nat ?n)"
    using h by (simp add: fmt_d_nonneg)
  show "written Stdout (fst (posix_main penv)) =
      [''Started '' @ dec_nat (nat ?n) @ '' worker threads\<newline>'']"
    unfolding run by (simp add: observe_append observe_creates observe_joins dec)
  show "length (spawned (takeWhile (\<lambda>e. \<not> is_stdout_write e) (fst (posix_main penv)))) = nat ?n"
    unfolding tw using h by (simp add: observe_append observe_creates)
  show "joined (takeWhile (\<lambda>e. \<not> is_stdout_write e) (fst (posix_main penv))) = []"
    unfolding tw by (simp add: observe_append observe_creates)
  show "spawn_attempts (dropWhile (\<lambda>e. \<not> is_stdout_write e) (fst (posix_main penv))) = []"
    unfolding dw by (simp add: observe_append observe_joins)
  show "joined (dropWhile (\<lambda>e. \<not> is_stdout_write e) (fst (posix_main penv))) =
      map Some (spawned (fst (posix_main penv)))"
    unfolding dw
    by (simp add: run observe_append observe_creates
        observe_joins [where g = "\<lambda>j. Some (pthread_create_id penv j)"] comp_def)
next
  let ?n = "sint (dwNumberOfProcessors wenv)"
  let ?before = "[Get_handle Stdout True, Get_handle Stderr True, Install_ctrl True, Query_cpus,
    Alloc ?n True] @ map (\<lambda>j. Create j (Some (CreateThread wenv j))) [0..?n - 1]"
  let ?line = "''Started '' @ fmt_d ?n @ '' worker threads\<newline>''"
  let ?after = "Wait_all (map (\<lambda>j. Some (CreateThread wenv j)) [0..?n - 1]) #
    map (\<lambda>j. Close (Some (CreateThread wenv j))) [0..?n - 1] @ [Free]"
  assume h: "stdout_handle_ok wenv \<and> stderr_handle_ok wenv \<and> ctrl_handler_ok wenv \<and>
    0 < ?n \<and> heap_alloc_ok wenv \<and>
    (\<forall>j. 0 \<le> j \<and> j < ?n \<longrightarrow> CreateThread wenv j \<noteq> NULL_HANDLE)"
  then have "win_main wenv =
        ([Get_handle Stdout True, Get_handle Stderr True, Install_ctrl True, Query_cpus,
          Alloc ?n True] @
         map (\<lambda>j. Create j (Some (CreateThread wenv j))) [0..?n - 1] @
         [Write Stdout ?line,
          Wait_all (map (\<lambda>j. Some (CreateThread wenv j)) [0..?n - 1])] @
         map (\<lambda>j. Close (Some (CreateThread wenv j))) [0..?n - 1] @
         [Free],
         EXIT_SUCCESS)"
    by (intro win_main_all_ok) simp_all
  then have run: "fst (win_main wenv) = ?before @ Write Stdout ?line # ?after"
    by simp
  have tw: "takeWhile (\<lambda>e. \<not> is_stdout_write e) (fst (win_main wenv)) = ?before"
    unfolding run by (rule split_at_stdout_write(1)) auto
  have dw: "dropWhile (\<lambda>e. \<not> is_stdout_write e) (fst (win_main wenv)) =
      Write Stdout ?line # ?after"
    unfolding run by (rule split_at_stdout_write(2)) auto
  have dec: "fmt_d ?n = dec_nat (nat ?n)"
    using h by (simp add: fmt_d_nonneg)
  show "written Stdout (fst (win_main wenv)) =
      [''Started '' @ dec_nat (nat ?n) @ '' worker threads\<newline>'']"
    unfolding run by (simp add: observe_append observe_creates observe_closes dec)
  show "length (spawned (takeWhile (\<lambda>e. \<not> is_stdout_write e) (fst (win_main wenv)))) = nat ?n"
    unfolding tw using h by (simp add: observe_append observe_creates)
  show "waited (takeWhile (\<lambda>e. \<not> is_stdout_write e) (fst (win_main wenv))) = []"
    unfolding tw by (simp add: observe_append observe_creates)
  show "spawn_attempts (dropWhile (\<lambda>e. \<not> is_stdout_write e) (fst (win_main wenv))) = []"
    unfolding dw by (simp add: observe_append observe_closes)
  show "waited (dropWhile (\<lambda>e. \<not> is_stdout_write e) (fst (win_main wenv))) =
      [map Some (spawned (fst (win_main wenv)))]"
    unfolding dw
    by (simp add: run observe_append observe_creates observe_closes comp_def)
qed

text \<open>
  Beyond four digits the 35-byte cut of line 96 reaches the index itself. Counts of that
  size are not reported by \<^verbatim>\<open>GetSystemInfo\<close>.
\<close>

lemma win_spawn_diagnostic_loses_index_digits:
  "win_main ((win_ok 10001)\<lparr>CreateThread := (\<lambda>i. if i = 10000 then 0 else 100 + nat i)\<rparr>) =
     ([Get_handle Stdout True, Get_handle Stderr True, Install_ctrl True, Query_cpus,
       Alloc 10001 True] @
      map (\<lambda>j. Create j (Some (100 + nat j))) [0..9999] @
      [Create 10000 None, Write Stderr ''ERROR: Failed to create thread 1000'', Free],
      1)"
proof -
  let ?e = "(win_ok 10001)\<lparr>CreateThread := (\<lambda>i. if i = 10000 then 0 else 100 + nat i)\<rparr>"
  have creates: "map (\<lambda>j. Create j (Some (CreateThread ?e j))) [0..10000 - 1] =
      map (\<lambda>j. Create j (Some (100 + nat j))) [0..9999]"
    by (rule map_cong) (simp_all add: win_ok_def)
  have "win_main ?e =
    ([Get_handle Stdout True, Get_handle Stderr True, Install_ctrl True, Query_cpus,
      Alloc (sint (dwNumberOfProcessors ?e)) True] @
     map (\<lambda>j. Create j (Some (CreateThread ?e j))) [0..10000 - 1] @
     [Create 10000 None,
      Write Stderr
        (take 35 ((''ERROR: Failed to create thread '' @ fmt_d 10000 @ ''.\<newline>'') @ [NUL])),
      Free],
     EXIT_FAILURE)"
    by (rule win_main_spawn_fails) (simp_all add: win_ok_def NULL_HANDLE_def)
  then show ?thesis
    unfolding creates
    by (simp add: win_ok_def EXIT_FAILURE_def fmt_d_def dec_nat.simps digit_char_def)
qed

lemma win_main_one_cpu:
  "win_main (win_ok 1) =
     ([Get_handle Stdout True, Get_handle Stderr True, Install_ctrl True, Query_cpus,
       Alloc 1 True, Create 0 (Some 100), Write Stdout ''Started 1 worker threads\<newline>'',
       Wait_all [Some 100], Close (Some 100), Free], 0)"
proof -
  have "win_main (win_ok 1) =
    ([Get_handle Stdout True, Get_handle Stderr True, Install_ctrl True, Query_cpus,
      Alloc (sint (dwNumberOfProcessors (win_ok 1))) True] @
     map (\<lambda>j. Create j (Some (CreateThread (win_ok 1) j)))
       [0..sint (dwNumberOfProcessors (win_ok 1)) - 1] @
     [Write Stdout
        (''Started '' @ fmt_d (sint (dwNumberOfProcessors (win_ok 1))) @
         '' worker threads\<newline>''),
      Wait_all (map (\<lambda>j. Some (CreateThread (win_ok 1) j))
        [0..sint (dwNumberOfProcessors (win_ok 1)) - 1])] @
     map (\<lambda>j. Close (Some (CreateThread (win_ok 1) j)))
       [0..sint (dwNumberOfProcessors (win_ok 1)) - 1] @
     [Free],
     EXIT_SUCCESS)"
    by (rule win_main_all_ok) (simp_all add: win_ok_def NULL_HANDLE_def)
  then show ?thesis
    by (simp add: win_ok_def EXIT_SUCCESS_def fmt_d_def dec_nat.simps digit_char_def)
qed

section \<open>Properties of the supervisor\<close>

text \<open>
  C8. If the processor count stored in \<^verbatim>\<open>numThreads\<close> is zero or negative, the program
  ends with a nonzero status after writing one diagnostic to standard error, and no thread
  creation is attempted. On POSIX the two \<^verbatim>\<open>signal\<close> calls precede the test (the count
  itself was read first, in the initialiser of line 177); on Windows the query is reached
  once both console handles and the control handler are in place.
\<close>

theorem cpu_count_nonpositive_is_fatal:
  "(sint (sysconf_nprocs penv) \<le> 0 \<longrightarrow>
      posix_main penv =
        ([Query_cpus, Install SIGINT (signal_ok penv SIGINT),
          Install SIGTERM (signal_ok penv SIGTERM),
          Write Stderr ''Error getting the number of processors.\<newline>''], EXIT_FAILURE) \<and>
      snd (posix_main penv) \<noteq> 0 \<and>
      written Stderr (fst (posix_main penv)) = [''Error getting the number of processors.\<newline>''] \<and>
      spawn_attempts (fst (posix_main penv)) = []) \<and>
   (stdout_handle_ok wenv \<and> stderr_handle_ok wenv \<and> ctrl_handler_ok wenv \<and>
    sint (dwNumberOfProcessors wenv) \<le> 0 \<longrightarrow>
      win_main wenv =
        ([Get_handle Stdout True, Get_handle Stderr True, Install_ctrl True, Query_cpus,
          Write Stderr ''ERROR: Failed to get number of processors\<newline>''], EXIT_FAILURE) \<and>
      snd (win_main wenv) \<noteq> 0 \<and>
      written Stderr (fst (win_main wenv)) = [''ERROR: Failed to get number of processors\<newline>''] \<and>
      spawn_attempts (fst (win_main wenv)) = [])"
  by (simp add: posix_main_def win_main_def Let_def EXIT_FAILURE_def write_literal_eq NUL_def)

theorem cpu_count_nonpositive_is_fatal_witness:
  "sint (sysconf_nprocs (posix_ok (- 1))) \<le> 0 \<and>
   snd (posix_main (posix_ok (- 1))) = 1 \<and>
   written Stderr (fst (posix_main (posix_ok (- 1)))) =
     [''Error getting the number of processors.\<newline>''] \<and>
   spawn_attempts (fst (posix_main (posix_ok (- 1)))) = [] \<and>
   sint (dwNumberOfProcessors (win_ok 0)) \<le> 0 \<and>
   snd (win_main (win_ok 0)) = 1 \<and>
   written Stderr (fst (win_main (win_ok 0))) =
     [''ERROR: Failed to get number of processors\<newline>''] \<and>
   spawn_attempts (fst (win_main (win_ok 0))) = []"
  using cpu_count_nonpositive_is_fatal [of "posix_ok (- 1)" "win_ok 0"]
  by (simp add: posix_ok_def win_ok_def EXIT_FAILURE_def)

text \<open>
  C1, with the condition it needs. When the processor count \<open>N\<close> is positive, the handle
  sequence is allocated and every one of the \<open>N\<close> spawns succeeds (on Windows: also both
  console handles and the control handler are in place), the supervisor makes exactly these
  calls, in this order: it creates one thread for each slot \<open>0, \<dots>, N - 1\<close>, writes the
  startup line, waits for the thread of each slot exactly once, frees the sequence and
  returns \<^verbatim>\<open>EXIT_SUCCESS\<close>. On POSIX the wait is one \<^verbatim>\<open>pthread_join\<close> per slot, in slot
  order; on Windows it is one \<^verbatim>\<open>WaitForMultipleObjects\<close> over all \<open>N\<close> slots followed by
  one \<^verbatim>\<open>CloseHandle\<close> per slot.
\<close>

theorem supervisor_spawns_and_joins_all:
  "(0 < sint (sysconf_nprocs penv) \<and> malloc_ok penv \<and>
    (\<forall>j. 0 \<le> j \<and> j < sint (sysconf_nprocs penv) \<longrightarrow> pthread_create_rc penv j = 0) \<longrightarrow>
      posix_main penv =
        ([Query_cpus, Install SIGINT (signal_ok penv SIGINT),
          Install SIGTERM (signal_ok penv SIGTERM), Alloc (sint (sysconf_nprocs penv)) True] @
         map (\<lambda>j. Create j (Some (pthread_create_id penv j))) [0..sint (sysconf_nprocs penv) - 1] @
         [Write Stdout
            (''Started '' @ fmt_d (sint (sysconf_nprocs penv)) @ '' worker threads\<newline>'')] @
         map (\<lambda>j. Join (Some (pthread_create_id penv j))) [0..sint (sysconf_nprocs penv) - 1] @
         [Free],
         EXIT_SUCCESS) \<and>
      spawn_attempts (fst (posix_main penv)) = [0..sint (sysconf_nprocs penv) - 1] \<and>
      length (spawned (fst (posix_main penv))) = nat (sint (sysconf_nprocs penv)) \<and>
      joined (fst (posix_main penv)) = map Some (spawned (fst (posix_main penv))) \<and>
      snd (posix_main penv) = 0) \<and>
   (stdout_handle_ok wenv \<and> stderr_handle_ok wenv \<and> ctrl_handler_ok wenv \<and>
    0 < sint (dwNumberOfProcessors wenv) \<and> heap_alloc_ok wenv \<and>
    (\<forall>j. 0 \<le> j \<and> j < sint (dwNumberOfProcessors wenv) \<longrightarrow>
       CreateThread wenv j \<noteq> NULL_HANDLE) \<longrightarrow>
      win_main wenv =
        ([Get_handle Stdout True, Get_handle Stderr True, Install_ctrl True, Query_cpus,
          Alloc (sint (dwNumberOfProcessors wenv)) True] @
         map (\<lambda>j. Create j (Some (CreateThread wenv j))) [0..sint (dwNumberOfProcessors wenv) - 1] @
         [Write Stdout
            (''Started '' @ fmt_d (sint (dwNumberOfProcessors wenv)) @ '' worker threads\<newline>''),
          Wait_all
            (map (\<lambda>j. Some (CreateThread wenv j)) [0..sint (dwNumberOfProcessors wenv) - 1])] @
         map (\<lambda>j. Close (Some (CreateThread wenv j))) [0..sint (dwNumberOfProcessors wenv) - 1] @
         [Free],
         EXIT_SUCCESS) \<and>
      spawn_attempts (fst (win_main wenv)) = [0..sint (dwNumberOfProcessors wenv) - 1] \<and>
      length (spawned (fst (win_main wenv))) = nat (sint (dwNumberOfProcessors wenv)) \<and>
      waited (fst (win_main wenv)) = [map Some (spawned (fst (win_main wenv)))] \<and>
      closed (fst (win_main wenv)) = map Some (spawned (fst (win_main wenv))) \<and>
      snd (win_main wenv) = 0)"
proof (intro conjI impI)
  assume h: "0 < sint (sysconf_nprocs penv) \<and> malloc_ok penv \<and>
    (\<forall>j. 0 \<le> j \<and> j < sint (sysconf_nprocs penv) \<longrightarrow> pthread_create_rc penv j = 0)"
  then have run: "posix_main penv =
        ([Query_cpus, Install SIGINT (signal_ok penv SIGINT),
          Install SIGTERM (signal_ok penv SIGTERM), Alloc (sint (sysconf_nprocs penv)) True] @
         map (\<lambda>j. Create j (Some (pthread_create_id penv j))) [0..sint (sysconf_nprocs penv) - 1] @
         [Write Stdout
            (''Started '' @ fmt_d (sint (sysconf_nprocs penv)) @ '' worker threads\<newline>'')] @
         map (\<lambda>j. Join (Some (pthread_create_id penv j))) [0..sint (sysconf_nprocs penv) - 1] @
         [Free],
         EXIT_SUCCESS)"
    by (intro posix_main_all_ok) simp_all
  show "posix_main penv =
        ([Query_cpus, Install SIGINT (signal_ok penv SIGINT),
          Install SIGTERM (signal_ok penv SIGTERM), Alloc (sint (sysconf_nprocs penv)) True] @
         map (\<lambda>j. Create j (Some (pthread_create_id penv j))) [0..sint (sysconf_nprocs penv) - 1] @
         [Write Stdout
            (''Started '' @ fmt_d (sint (sysconf_nprocs penv)) @ '' worker threads\<newline>'')] @
         map (\<lambda>j. Join (Some (pthread_create_id penv j))) [0..sint (sysconf_nprocs penv) - 1] @
         [Free],
         EXIT_SUCCESS)"
    by (rule run)
  show "spawn_attempts (fst (posix_main penv)) = [0..sint (sysconf_nprocs penv) - 1]"
    by (simp add: run observe_append observe_creates observe_joins)
  show "length (spawned (fst (posix_main penv))) = nat (sint (sysconf_nprocs penv))"
    using h by (simp add: run observe_append observe_creates observe_joins)
  show "joined (fst (posix_main penv)) = map Some (spawned (fst (posix_main penv)))"
    by (simp add: run observe_append observe_creates observe_joins [where g = "\<lambda>j. Some (pthread_create_id penv j)"] comp_def)
  show "snd (posix_main penv) = 0"
    by (simp add: run EXIT_SUCCESS_def)
next
  assume h: "stdout_handle_ok wenv \<and> stderr_handle_ok wenv \<and> ctrl_handler_ok wenv \<and>
    0 < sint (dwNumberOfProcessors wenv) \<and> heap_alloc_ok wenv \<and>
    (\<forall>j. 0 \<le> j \<and> j < sint (dwNumberOfProcessors wenv) \<longrightarrow>
       CreateThread wenv j \<noteq> NULL_HANDLE)"
  then have run: "win_main wenv =
        ([Get_handle Stdout True, Get_handle Stderr True, Install_ctrl True, Query_cpus,
          Alloc (sint (dwNumberOfProcessors wenv)) True] @
         map (\<lambda>j. Create j (Some (CreateThread wenv j))) [0..sint (dwNumberOfProcessors wenv) - 1] @
         [Write Stdout
            (''Started '' @ fmt_d (sint (dwNumberOfProcessors wenv)) @ '' worker threads\<newline>''),
          Wait_all
            (map (\<lambda>j. Some (CreateThread wenv j)) [0..sint (dwNumberOfProcessors wenv) - 1])] @
         map (\<lambda>j. Close (Some (CreateThread wenv j))) [0..sint (dwNumberOfProcessors wenv) - 1] @
         [Free],
         EXIT_SUCCESS)"
    by (intro win_main_all_ok) simp_all
  show "win_main wenv =
        ([Get_handle Stdout True, Get_handle Stderr True, Install_ctrl True, Query_cpus,
          Alloc (sint (dwNumberOfProcessors wenv)) True] @
         map (\<lambda>j. Create j (Some (CreateThread wenv j))) [0..sint (dwNumberOfProcessors wenv) - 1] @
         [Write Stdout
            (''Started '' @ fmt_d (sint (dwNumberOfProcessors wenv)) @ '' worker threads\<newline>''),
          Wait_all
            (map (\<lambda>j. Some (CreateThread wenv j)) [0..sint (dwNumberOfProcessors wenv) - 1])] @
         map (\<lambda>j. Close (Some (CreateThread wenv j))) [0..sint (dwNumberOfProcessors wenv) - 1] @
         [Free],
         EXIT_SUCCESS)"
    by (rule run)
  show "spawn_attempts (fst (win_main wenv)) = [0..sint (dwNumberOfProcessors wenv) - 1]"
    by (simp add: run observe_append observe_creates observe_closes)
  show "length (spawned (fst (win_main wenv))) = nat (sint (dwNumberOfProcessors wenv))"
    using h by (simp add: run observe_append observe_creates observe_closes)
  show "waited (fst (win_main wenv)) = [map Some (spawned (fst (win_main wenv)))]"
    by (simp add: run observe_append observe_creates observe_closes comp_def)
  show "closed (fst (win_main wenv)) = map Some (spawned (fst (win_main wenv)))"
    by (simp add: run observe_append observe_creates observe_closes [where g = "\<lambda>j. Some (CreateThread wenv j)"] comp_def)
  show "snd (win_main wenv) = 0"
    by (simp add: run EXIT_SUCCESS_def)
qed

theorem supervisor_spawns_and_joins_all_witness:
  "spawned (fst (posix_main (posix_ok 4))) = [100, 101, 102, 103] \<and>
   joined (fst (posix_main (posix_ok 4))) = [Some 100, Some 101, Some 102, Some 103] \<and>
   snd (posix_main (posix_ok 4)) = 0 \<and>
   spawned (fst (win_main (win_ok 4))) = [100, 101, 102, 103] \<and>
   waited (fst (win_main (win_ok 4))) = [[Some 100, Some 101, Some 102, Some 103]] \<and>
   closed (fst (win_main (win_ok 4))) = [Some 100, Some 101, Some 102, Some 103] \<and>
   snd (win_main (win_ok 4)) = 0"
  using supervisor_spawns_and_joins_all [of "posix_ok 4" "win_ok 4"]
  by (simp add: posix_ok_def win_ok_def NULL_HANDLE_def EXIT_SUCCESS_def upto_rec1)

text \<open>
  C1 as stated, for every positive count alone, does not hold: with four processors and a
  failing third spawn only two threads exist, none is joined and the status is
  \<^verbatim>\<open>EXIT_FAILURE\<close> (lines 196--199).
\<close>

theorem supervisor_spawns_all_counterexample:
  "0 < sint (sysconf_nprocs ((posix_ok 4)\<lparr>pthread_create_rc := (\<lambda>i. if i = 2 then 11 else 0)\<rparr>)) \<and>
   spawned (fst (posix_main ((posix_ok 4)\<lparr>pthread_create_rc := (\<lambda>i. if i = 2 then 11 else 0)\<rparr>))) =
     [100, 101] \<and>
   joined (fst (posix_main ((posix_ok 4)\<lparr>pthread_create_rc := (\<lambda>i. if i = 2 then 11 else 0)\<rparr>))) = [] \<and>
   snd (posix_main ((posix_ok 4)\<lparr>pthread_create_rc := (\<lambda>i. if i = 2 then 11 else 0)\<rparr>)) = 1"
proof -
  let ?env = "(posix_ok 4)\<lparr>pthread_create_rc := (\<lambda>i. if i = 2 then 11 else 0)\<rparr>"
  have "posix_main ?env =
    ([Query_cpus, Install SIGINT (signal_ok ?env SIGINT), Install SIGTERM (signal_ok ?env SIGTERM),
      Alloc (sint (sysconf_nprocs ?env)) True] @
     map (\<lambda>j. Create j (Some (pthread_create_id ?env j))) [0..2 - 1] @
     [Create 2 None, Write Stderr (''Error creating thread '' @ fmt_d 2 @ ''.\<newline>''), Free],
     EXIT_FAILURE)"
    by (rule posix_main_spawn_fails) (simp_all add: posix_ok_def)
  then show ?thesis
    by (simp add: posix_ok_def EXIT_FAILURE_def observe_append observe_creates upto_rec1)
qed

text \<open>
  C9, at an input where it fails. On a one-processor POSIX system whose standard output is
  a pipe or a file, \<^verbatim>\<open>stdout\<close> is fully buffered and line 203 is not followed by a flush.
  When \<^verbatim>\<open>main\<close> has made its calls up to the startup line and stands before
  \<^verbatim>\<open>pthread_join\<close>, which does not return while the worker spins, nothing has been written
  to standard output: the line sits in the buffer. It is written when \<^verbatim>\<open>main\<close> returns,
  after the join, together with the handler's line; and it is never written when a signal
  ends the process first. With standard output a terminal the line is written before the
  join, and on Windows line 113 writes it at once.
\<close>

theorem started_line_buffered_until_exit:
  "map_option (\<lambda>p. (supervisor p, console p, stdio_buffer p, step Main p))
     (run up_to_the_wait (posix_process ((posix_ok 1)\<lparr>stdout_interactive := False\<rparr>))) =
     Some ([Join (Some 100), Free], [], ''Started 1 worker threads\<newline>'', None) \<and>
   map_option (\<lambda>p. (console p, state p))
     (run clean_shutdown (posix_process ((posix_ok 1)\<lparr>stdout_interactive := False\<rparr>))) =
     Some ([(Stdout, ''Started 1 worker threads\<newline>'' @
                     ''Received exit signal 2: Exiting...\<newline>'')], Exited 0) \<and>
   map_option (\<lambda>p. (console p, state p))
     (run (up_to_the_wait @ [Signal 9])
        (posix_process ((posix_ok 1)\<lparr>stdout_interactive := False\<rparr>))) =
     Some ([], Killed 9) \<and>
   map_option (\<lambda>p. (supervisor p, console p))
     (run up_to_the_wait (posix_process (posix_ok 1))) =
     Some ([Join (Some 100), Free], [(Stdout, ''Started 1 worker threads\<newline>'')]) \<and>
   map_option (\<lambda>p. (supervisor p, console p))
     (run (Main # up_to_the_wait) (win_process (win_ok 1))) =
     Some ([Wait_all [Some 100], Close (Some 100), Free],
           [(Stdout, ''Started 1 worker threads\<newline>'')])"
proof -
  let ?pipe = "(posix_ok 1)\<lparr>stdout_interactive := False\<rparr>"
  have pipe: "posix_main ?pipe =
     ([Query_cpus, Install SIGINT True, Install SIGTERM True, Alloc 1 True,
       Create 0 (Some 100), Write Stdout ''Started 1 worker threads\<newline>'',
       Join (Some 100), Free], 0)"
    using posix_main_one_cpu [of ?pipe "\<lambda>sig. True"] by (simp add: posix_ok_def)
  have tty: "posix_main (posix_ok 1) =
     ([Query_cpus, Install SIGINT True, Install SIGTERM True, Alloc 1 True,
       Create 0 (Some 100), Write Stdout ''Started 1 worker threads\<newline>'',
       Join (Some 100), Free], 0)"
    using posix_main_one_cpu [of "posix_ok 1" "\<lambda>sig. True"] by (simp add: posix_ok_def)
  have buffered: "stdout_interactive ?pipe = False" and direct: "stdout_interactive (posix_ok 1)"
    by (simp_all add: posix_ok_def)
  have c1: "map_option (\<lambda>p. (supervisor p, console p, stdio_buffer p, step Main p))
     (run up_to_the_wait (posix_process ?pipe)) =
     Some ([Join (Some 100), Free], [], ''Started 1 worker threads\<newline>'', None)"
    by (simp add: up_to_the_wait_def posix_process_def boot_def pipe buffered SIGINT_def
        SIGTERM_def stdio_put_def)
  have c2: "map_option (\<lambda>p. (console p, state p)) (run clean_shutdown (posix_process ?pipe)) =
     Some ([(Stdout, ''Started 1 worker threads\<newline>'' @
                     ''Received exit signal 2: Exiting...\<newline>'')], Exited 0)"
    using clean_shutdown_run [OF pipe] by (auto simp: buffered)
  have c3: "map_option (\<lambda>p. (console p, state p))
     (run (up_to_the_wait @ [Signal 9]) (posix_process ?pipe)) = Some ([], Killed 9)"
    by (simp add: up_to_the_wait_def posix_process_def boot_def pipe buffered SIGINT_def
        SIGTERM_def stdio_put_def)
  have c4: "map_option (\<lambda>p. (supervisor p, console p))
     (run up_to_the_wait (posix_process (posix_ok 1))) =
     Some ([Join (Some 100), Free], [(Stdout, ''Started 1 worker threads\<newline>'')])"
    by (simp add: up_to_the_wait_def posix_process_def boot_def tty direct SIGINT_def
        SIGTERM_def stdio_put_def complete_lines_def)
  have c5: "map_option (\<lambda>p. (supervisor p, console p))
     (run (Main # up_to_the_wait) (win_process (win_ok 1))) =
     Some ([Wait_all [Some 100], Close (Some 100), Free],
           [(Stdout, ''Started 1 worker threads\<newline>'')])"
    by (simp add: up_to_the_wait_def win_process_def boot_def win_main_one_cpu stdio_put_def)
  show ?thesis
    using c1 c2 c3 c4 c5 by (intro conjI)
qed

text \<open>
  C10. In the Windows spawn-failure path the formatting of the diagnostic always succeeds
  (an \<^verbatim>\<open>INT\<close> index has at most ten digits), and line 96 then writes to standard error
  as many bytes of \<^verbatim>\<open>messageBuffer\<close> as the format string
  \<^verbatim>\<open>"ERROR: Failed to create thread %d.\n"\<close> is long, 35, not as many as the formatted
  text is long. What is written is therefore the formatted text followed by its
  terminating zero byte when the index has one digit, exactly the formatted text when it
  has two, and the first 35 bytes of a longer formatted text when it has three or more.
\<close>

theorem win_spawn_diagnostic_has_template_length:
  "stdout_handle_ok env \<and> stderr_handle_ok env \<and> ctrl_handler_ok env \<and> heap_alloc_ok env \<and>
   0 \<le> k \<and> k < sint (dwNumberOfProcessors env) \<and> CreateThread env k = NULL_HANDLE \<and>
   (\<forall>j. 0 \<le> j \<and> j < k \<longrightarrow> CreateThread env j \<noteq> NULL_HANDLE) \<longrightarrow>
     fst (StringCchPrintfA (stack_bytes env) 128
            (sprintf_d ''ERROR: Failed to create thread %d.\<newline>'' k)) = S_OK \<and>
     strlen (snd (StringCchPrintfA (stack_bytes env) 128
            (sprintf_d ''ERROR: Failed to create thread %d.\<newline>'' k))) =
       length (sprintf_d ''ERROR: Failed to create thread %d.\<newline>'' k) \<and>
     strlen (c_str ''ERROR: Failed to create thread %d.\<newline>'') =
       length ''ERROR: Failed to create thread %d.\<newline>'' \<and>
     written Stderr (fst (win_main env)) =
       [take (length ''ERROR: Failed to create thread %d.\<newline>'')
          (snd (StringCchPrintfA (stack_bytes env) 128
             (sprintf_d ''ERROR: Failed to create thread %d.\<newline>'' k)))] \<and>
     written Stderr (fst (win_main env)) =
       [take (length ''ERROR: Failed to create thread %d.\<newline>'')
          (sprintf_d ''ERROR: Failed to create thread %d.\<newline>'' k @ [NUL])] \<and>
     length (take (length ''ERROR: Failed to create thread %d.\<newline>'')
          (sprintf_d ''ERROR: Failed to create thread %d.\<newline>'' k @ [NUL])) =
       length ''ERROR: Failed to create thread %d.\<newline>'' \<and>
     (k < 10 \<longrightarrow>
        written Stderr (fst (win_main env)) =
          [sprintf_d ''ERROR: Failed to create thread %d.\<newline>'' k @ [NUL]]) \<and>
     (10 \<le> k \<and> k < 100 \<longrightarrow>
        written Stderr (fst (win_main env)) =
          [sprintf_d ''ERROR: Failed to create thread %d.\<newline>'' k]) \<and>
     (100 \<le> k \<longrightarrow>
        length ''ERROR: Failed to create thread %d.\<newline>'' <
          length (sprintf_d ''ERROR: Failed to create thread %d.\<newline>'' k) \<and>
        written Stderr (fst (win_main env)) =
          [take (length ''ERROR: Failed to create thread %d.\<newline>'')
             (sprintf_d ''ERROR: Failed to create thread %d.\<newline>'' k)])"
proof (intro impI)
  let ?template = "''ERROR: Failed to create thread %d.\<newline>''"
  let ?s = "''ERROR: Failed to create thread '' @ fmt_d k @ ''.\<newline>''"
  assume h: "stdout_handle_ok env \<and> stderr_handle_ok env \<and> ctrl_handler_ok env \<and>
    heap_alloc_ok env \<and> 0 \<le> k \<and> k < sint (dwNumberOfProcessors env) \<and>
    CreateThread env k = NULL_HANDLE \<and>
    (\<forall>j. 0 \<le> j \<and> j < k \<longrightarrow> CreateThread env j \<noteq> NULL_HANDLE)"
  then have k: "0 \<le> k" "k < 2 ^ 31"
    using sint32_lt [of "dwNumberOfProcessors env"] by simp_all
  have fmt: "sprintf_d ?template k = ?s"
    by (rule sprintf_create_failed)
  have digits: "0 < length (fmt_d k)"
    using k(1) dec_nat_length_pos [of "nat k"] by (simp add: fmt_d_nonneg)
  have len: "length ?s < 128"
    using fmt_d_length_le [OF k] by simp
  have nul: "NUL \<notin> set ?s"
    using fmt_d_no_NUL [OF k(1)] by (simp add: NUL_def)
  have buf: "StringCchPrintfA (stack_bytes env) 128 ?s =
      (S_OK, ?s @ NUL # drop (Suc (length ?s)) (stack_bytes env))"
    using len by (rule StringCchPrintfA_fits)
  have "win_main env =
    ([Get_handle Stdout True, Get_handle Stderr True, Install_ctrl True, Query_cpus,
      Alloc (sint (dwNumberOfProcessors env)) True] @
     map (\<lambda>j. Create j (Some (CreateThread env j))) [0..k - 1] @
     [Create k None, Write Stderr (take 35 (?s @ [NUL])), Free],
     EXIT_FAILURE)"
    using h by (intro win_main_spawn_fails) simp_all
  then have out: "written Stderr (fst (win_main env)) = [take 35 (?s @ [NUL])]"
    by (simp add: observe_append observe_creates)
  have short: "35 - length ?s \<le> 1"
    using digits by (cases "fmt_d k") simp_all
  have "take (35 - length ?s) (NUL # drop (Suc (length ?s)) (stack_bytes env)) =
      take (35 - length ?s) [NUL]"
    using short by (rule take_terminator)
  then have cut: "take 35 (?s @ NUL # drop (Suc (length ?s)) (stack_bytes env)) =
      take 35 (?s @ [NUL])"
    by (simp only: take_append)
  have tl: "length ?template = 35"
    by simp
  have c1: "fst (StringCchPrintfA (stack_bytes env) 128 (sprintf_d ?template k)) = S_OK"
    unfolding fmt buf by simp
  have c2: "strlen (snd (StringCchPrintfA (stack_bytes env) 128 (sprintf_d ?template k))) =
      length (sprintf_d ?template k)"
    unfolding fmt buf snd_conv using nul by (rule strlen_c_str)
  have c3: "strlen (c_str ?template) = length ?template"
    unfolding c_str_def
    by (subst append_Nil [of "[]", symmetric], subst append_Cons [symmetric],
        subst strlen_c_str) (simp_all add: NUL_def)
  have c4: "written Stderr (fst (win_main env)) =
      [take (length ?template) (snd (StringCchPrintfA (stack_bytes env) 128 (sprintf_d ?template k)))]"
    unfolding fmt buf snd_conv out tl cut by (rule refl)
  have c5: "written Stderr (fst (win_main env)) =
      [take (length ?template) (sprintf_d ?template k @ [NUL])]"
    unfolding fmt out tl by (rule refl)
  have ls: "length ?s = 33 + length (fmt_d k)"
    by simp
  have c6: "length (take (length ?template) (sprintf_d ?template k @ [NUL])) = length ?template"
  proof -
    have "35 \<le> length (?s @ [NUL])"
      using digits by (cases "fmt_d k") simp_all
    then have "length (take 35 (?s @ [NUL])) = 35"
      by (simp only: length_take min_absorb2)
    then show ?thesis
      unfolding fmt tl .
  qed
  have c7: "k < 10 \<longrightarrow> written Stderr (fst (win_main env)) = [sprintf_d ?template k @ [NUL]]"
  proof
    assume "k < 10"
    then have "length (fmt_d k) = 1"
      using k(1) by (intro fmt_d_one_digit)
    then have "length ?s + 1 = 35"
      using ls by simp
    then have "take 35 (?s @ [NUL]) = ?s @ [NUL]"
      by (rule cut_cases(1))
    then show "written Stderr (fst (win_main env)) = [sprintf_d ?template k @ [NUL]]"
      unfolding fmt out by (simp only:)
  qed
  have c8: "10 \<le> k \<and> k < 100 \<longrightarrow>
      written Stderr (fst (win_main env)) = [sprintf_d ?template k]"
  proof
    assume "10 \<le> k \<and> k < 100"
    then have "length (fmt_d k) = 2"
      by (intro fmt_d_two_digits) simp_all
    then have "length ?s = 35"
      using ls by simp
    then have "take 35 (?s @ [NUL]) = ?s"
      by (rule cut_cases(2))
    then show "written Stderr (fst (win_main env)) = [sprintf_d ?template k]"
      unfolding fmt out by (simp only:)
  qed
  have c9: "100 \<le> k \<longrightarrow>
      length ?template < length (sprintf_d ?template k) \<and>
      written Stderr (fst (win_main env)) = [take (length ?template) (sprintf_d ?template k)]"
  proof
    assume "100 \<le> k"
    then have "2 < length (fmt_d k)"
      by (rule fmt_d_three_digits)
    then have long: "35 < length ?s"
      using ls by simp
    then have "take 35 (?s @ [NUL]) = take 35 ?s"
      by (rule cut_cases(3))
    then have "written Stderr (fst (win_main env)) = [take (length ?template) (sprintf_d ?template k)]"
      unfolding fmt out tl by (simp only:)
    moreover have "length ?template < length (sprintf_d ?template k)"
      unfolding fmt tl by (rule long)
    ultimately show "length ?template < length (sprintf_d ?template k) \<and>
      written Stderr (fst (win_main env)) = [take (length ?template) (sprintf_d ?template k)]"
      by (rule conjI [rotated])
  qed
  show "fst (StringCchPrintfA (stack_bytes env) 128 (sprintf_d ?template k)) = S_OK \<and>
     strlen (snd (StringCchPrintfA (stack_bytes env) 128 (sprintf_d ?template k))) =
       length (sprintf_d ?template k) \<and>
     strlen (c_str ?template) = length ?template \<and>
     written Stderr (fst (win_main env)) =
       [take (length ?template)
          (snd (StringCchPrintfA (stack_bytes env) 128 (sprintf_d ?template k)))] \<and>
     written Stderr (fst (win_main env)) =
       [take (length ?template) (sprintf_d ?template k @ [NUL])] \<and>
     length (take (length ?template) (sprintf_d ?template k @ [NUL])) = length ?template \<and>
     (k < 10 \<longrightarrow>
        written Stderr (fst (win_main env)) = [sprintf_d ?template k @ [NUL]]) \<and>
     (10 \<le> k \<and> k < 100 \<longrightarrow>
        written Stderr (fst (win_main env)) = [sprintf_d ?template k]) \<and>
     (100 \<le> k \<longrightarrow>
        length ?template < length (sprintf_d ?template k) \<and>
        written Stderr (fst (win_main env)) =
          [take (length ?template) (sprintf_d ?template k)])"
    using c1 c2 c3 c4 c5 c6 c7 c8 c9 by blast
qed

theorem win_spawn_diagnostic_has_template_length_witness:
  "written Stderr
     (fst (win_main ((win_ok 4)\<lparr>CreateThread := (\<lambda>i. if i = 2 then 0 else 100 + nat i)\<rparr>))) =
     [''ERROR: Failed to create thread 2.\<newline>'' @ [NUL]] \<and>
   written Stderr
     (fst (win_main ((win_ok 128)\<lparr>CreateThread := (\<lambda>i. if i = 100 then 0 else 100 + nat i)\<rparr>))) =
     [''ERROR: Failed to create thread 100.'']"
proof -
  let ?e = "(win_ok 4)\<lparr>CreateThread := (\<lambda>i. if i = 2 then 0 else 100 + nat i)\<rparr>"
  let ?f = "(win_ok 128)\<lparr>CreateThread := (\<lambda>i. if i = 100 then 0 else 100 + nat i)\<rparr>"
  have e: "stdout_handle_ok ?e \<and> stderr_handle_ok ?e \<and> ctrl_handler_ok ?e \<and> heap_alloc_ok ?e \<and>
    0 \<le> (2::int) \<and> 2 < sint (dwNumberOfProcessors ?e) \<and> CreateThread ?e 2 = NULL_HANDLE \<and>
    (\<forall>j. 0 \<le> j \<and> j < 2 \<longrightarrow> CreateThread ?e j \<noteq> NULL_HANDLE)"
    by (simp add: win_ok_def NULL_HANDLE_def)
  have f: "stdout_handle_ok ?f \<and> stderr_handle_ok ?f \<and> ctrl_handler_ok ?f \<and> heap_alloc_ok ?f \<and>
    0 \<le> (100::int) \<and> 100 < sint (dwNumberOfProcessors ?f) \<and> CreateThread ?f 100 = NULL_HANDLE \<and>
    (\<forall>j. 0 \<le> j \<and> j < 100 \<longrightarrow> CreateThread ?f j \<noteq> NULL_HANDLE)"
    by (simp add: win_ok_def NULL_HANDLE_def)
  have small: "(2::int) < 10" and large: "(100::int) \<le> 100"
    by simp_all
  have "written Stderr (fst (win_main ?e)) =
      [sprintf_d ''ERROR: Failed to create thread %d.\<newline>'' 2 @ [NUL]]"
    using win_spawn_diagnostic_has_template_length [of ?e 2] e small by blast
  moreover have "written Stderr (fst (win_main ?f)) =
      [take (length ''ERROR: Failed to create thread %d.\<newline>'')
         (sprintf_d ''ERROR: Failed to create thread %d.\<newline>'' 100)]"
    using win_spawn_diagnostic_has_template_length [of ?f 100] f large by blast
  ultimately show ?thesis
    by (simp add: fmt_d_def dec_nat.simps digit_char_def)
qed

text \<open>
  C7. If the spawn for slot \<open>k\<close> fails after the spawns for the slots before it
  succeeded, the program writes one diagnostic to standard error that names \<open>k\<close> in
  decimal, frees the handle sequence as its last call, ends with the nonzero status
  \<^verbatim>\<open>EXIT_FAILURE\<close>, waits for no worker at all, attempts no spawn beyond slot \<open>k\<close> and
  writes nothing to standard output. On POSIX the diagnostic is
  \<^verbatim>\<open>Error creating thread <k>.\<close> with its newline. On Windows, where \<^verbatim>\<open>GetSystemInfo\<close>
  reports at most \<open>MAXIMUM_PROC_PER_GROUP\<close> processors, it is
  \<^verbatim>\<open>ERROR: Failed to create thread <k>.\<close> with its newline, followed by the terminating
  zero byte when \<open>k\<close> has one digit (the count of line 96).
\<close>

theorem spawn_failure_is_fatal:
  "(0 \<le> k \<and> k < sint (sysconf_nprocs penv) \<and> malloc_ok penv \<and>
    pthread_create_rc penv k \<noteq> 0 \<and>
    (\<forall>j. 0 \<le> j \<and> j < k \<longrightarrow> pthread_create_rc penv j = 0) \<longrightarrow>
      written Stderr (fst (posix_main penv)) =
        [''Error creating thread '' @ dec_nat (nat k) @ ''.\<newline>''] \<and>
      last (fst (posix_main penv)) = Free \<and>
      snd (posix_main penv) = EXIT_FAILURE \<and> snd (posix_main penv) \<noteq> 0 \<and>
      joined (fst (posix_main penv)) = [] \<and>
      spawn_attempts (fst (posix_main penv)) = [0..k] \<and>
      written Stdout (fst (posix_main penv)) = []) \<and>
   (stdout_handle_ok wenv \<and> stderr_handle_ok wenv \<and> ctrl_handler_ok wenv \<and>
    heap_alloc_ok wenv \<and> sint (dwNumberOfProcessors wenv) \<le> MAXIMUM_PROC_PER_GROUP \<and>
    0 \<le> k \<and> k < sint (dwNumberOfProcessors wenv) \<and> CreateThread wenv k = NULL_HANDLE \<and>
    (\<forall>j. 0 \<le> j \<and> j < k \<longrightarrow> CreateThread wenv j \<noteq> NULL_HANDLE) \<longrightarrow>
      written Stderr (fst (win_main wenv)) =
        [''ERROR: Failed to create thread '' @ dec_nat (nat k) @
         (if k < 10 then ''.\<newline>'' @ [NUL] else ''.\<newline>'')] \<and>
      last (fst (win_main wenv)) = Free \<and>
      snd (win_main wenv) = EXIT_FAILURE \<and> snd (win_main wenv) \<noteq> 0 \<and>
      waited (fst (win_main wenv)) = [] \<and>
      closed (fst (win_main wenv)) = [] \<and>
      spawn_attempts (fst (win_main wenv)) = [0..k] \<and>
      written Stdout (fst (win_main wenv)) = [])"
proof (intro conjI impI)
  assume h: "0 \<le> k \<and> k < sint (sysconf_nprocs penv) \<and> malloc_ok penv \<and>
    pthread_create_rc penv k \<noteq> 0 \<and>
    (\<forall>j. 0 \<le> j \<and> j < k \<longrightarrow> pthread_create_rc penv j = 0)"
  then have a: "0 \<le> k" "k < sint (sysconf_nprocs penv)" "malloc_ok penv"
    "pthread_create_rc penv k \<noteq> 0"
    "\<And>j. 0 \<le> j \<Longrightarrow> j < k \<Longrightarrow> pthread_create_rc penv j = 0"
    by simp_all
  note facts = posix_spawn_failure_is_fatal [OF a]
  show "written Stderr (fst (posix_main penv)) =
      [''Error creating thread '' @ dec_nat (nat k) @ ''.\<newline>'']"
    by (rule facts(2))
  show "last (fst (posix_main penv)) = Free"
    by (rule facts(6))
  show "snd (posix_main penv) = EXIT_FAILURE"
    using facts(1) by (simp add: EXIT_FAILURE_def)
  show "snd (posix_main penv) \<noteq> 0"
    using facts(1) by simp
  show "joined (fst (posix_main penv)) = []"
    by (rule facts(4))
  show "spawn_attempts (fst (posix_main penv)) = [0..k]"
    by (rule facts(5))
  show "written Stdout (fst (posix_main penv)) = []"
    by (rule facts(3))
next
  assume h: "stdout_handle_ok wenv \<and> stderr_handle_ok wenv \<and> ctrl_handler_ok wenv \<and>
    heap_alloc_ok wenv \<and> sint (dwNumberOfProcessors wenv) \<le> MAXIMUM_PROC_PER_GROUP \<and>
    0 \<le> k \<and> k < sint (dwNumberOfProcessors wenv) \<and> CreateThread wenv k = NULL_HANDLE \<and>
    (\<forall>j. 0 \<le> j \<and> j < k \<longrightarrow> CreateThread wenv j \<noteq> NULL_HANDLE)"
  then have a: "stdout_handle_ok wenv" "stderr_handle_ok wenv" "ctrl_handler_ok wenv"
    "0 \<le> k" "k < sint (dwNumberOfProcessors wenv)" "heap_alloc_ok wenv"
    "CreateThread wenv k = NULL_HANDLE"
    "\<And>j. 0 \<le> j \<Longrightarrow> j < k \<Longrightarrow> CreateThread wenv j \<noteq> NULL_HANDLE"
    by simp_all
  have small: "k < 64"
    using h by (simp add: MAXIMUM_PROC_PER_GROUP_def)
  note facts = win_spawn_failure_is_fatal [OF a]
  let ?s = "''ERROR: Failed to create thread '' @ fmt_d k @ ''.\<newline>''"
  have ls: "length ?s = 33 + length (fmt_d k)"
    by simp
  have out: "written Stderr (fst (win_main wenv)) = [take 35 (?s @ [NUL])]"
    by (simp add: win_main_spawn_fails [OF a] observe_append observe_creates)
  have cut: "take 35 (?s @ [NUL]) =
      ''ERROR: Failed to create thread '' @ dec_nat (nat k) @
      (if k < 10 then ''.\<newline>'' @ [NUL] else ''.\<newline>'')"
  proof (cases "k < 10")
    case True
    then have "length (fmt_d k) = 1"
      using a(4) by (intro fmt_d_one_digit)
    then have "length ?s + 1 = 35"
      using ls by simp
    then have "take 35 (?s @ [NUL]) = ?s @ [NUL]"
      by (rule cut_cases(1))
    then show ?thesis
      using True a(4) by (simp add: fmt_d_nonneg)
  next
    case False
    then have "length (fmt_d k) = 2"
      using small by (intro fmt_d_two_digits) simp_all
    then have "length ?s = 35"
      using ls by simp
    then have "take 35 (?s @ [NUL]) = ?s"
      by (rule cut_cases(2))
    then show ?thesis
      using False a(4) by (simp add: fmt_d_nonneg)
  qed
  show "written Stderr (fst (win_main wenv)) =
      [''ERROR: Failed to create thread '' @ dec_nat (nat k) @
       (if k < 10 then ''.\<newline>'' @ [NUL] else ''.\<newline>'')]"
    unfolding out cut by (rule refl)
  show "last (fst (win_main wenv)) = Free"
    by (rule facts(6))
  show "snd (win_main wenv) = EXIT_FAILURE"
    using facts(1) by (simp add: EXIT_FAILURE_def)
  show "snd (win_main wenv) \<noteq> 0"
    using facts(1) by simp
  show "waited (fst (win_main wenv)) = []"
    by (rule facts(3))
  show "closed (fst (win_main wenv)) = []"
    by (rule facts(4))
  show "spawn_attempts (fst (win_main wenv)) = [0..k]"
    by (rule facts(5))
  show "written Stdout (fst (win_main wenv)) = []"
    by (rule facts(2))
qed

theorem spawn_failure_is_fatal_witness:
  "written Stderr
     (fst (posix_main ((posix_ok 4)\<lparr>pthread_create_rc := (\<lambda>i. if i = 2 then 11 else 0)\<rparr>))) =
     [''Error creating thread 2.\<newline>''] \<and>
   snd (posix_main ((posix_ok 4)\<lparr>pthread_create_rc := (\<lambda>i. if i = 2 then 11 else 0)\<rparr>)) = 1 \<and>
   spawn_attempts
     (fst (posix_main ((posix_ok 4)\<lparr>pthread_create_rc := (\<lambda>i. if i = 2 then 11 else 0)\<rparr>))) =
     [0, 1, 2] \<and>
   written Stderr
     (fst (win_main ((win_ok 4)\<lparr>CreateThread := (\<lambda>i. if i = 2 then 0 else 100 + nat i)\<rparr>))) =
     [''ERROR: Failed to create thread 2.\<newline>'' @ [NUL]] \<and>
   snd (win_main ((win_ok 4)\<lparr>CreateThread := (\<lambda>i. if i = 2 then 0 else 100 + nat i)\<rparr>)) = 1"
proof -
  let ?e = "(posix_ok 4)\<lparr>pthread_create_rc := (\<lambda>i. if i = 2 then 11 else 0)\<rparr>"
  let ?f = "(win_ok 4)\<lparr>CreateThread := (\<lambda>i. if i = 2 then 0 else 100 + nat i)\<rparr>"
  have e: "0 \<le> (2::int) \<and> 2 < sint (sysconf_nprocs ?e) \<and> malloc_ok ?e \<and>
    pthread_create_rc ?e 2 \<noteq> 0 \<and>
    (\<forall>j. 0 \<le> j \<and> j < 2 \<longrightarrow> pthread_create_rc ?e j = 0)"
    by (simp add: posix_ok_def)
  have f: "stdout_handle_ok ?f \<and> stderr_handle_ok ?f \<and> ctrl_handler_ok ?f \<and>
    heap_alloc_ok ?f \<and> sint (dwNumberOfProcessors ?f) \<le> MAXIMUM_PROC_PER_GROUP \<and>
    0 \<le> (2::int) \<and> 2 < sint (dwNumberOfProcessors ?f) \<and> CreateThread ?f 2 = NULL_HANDLE \<and>
    (\<forall>j. 0 \<le> j \<and> j < 2 \<longrightarrow> CreateThread ?f j \<noteq> NULL_HANDLE)"
    by (simp add: win_ok_def NULL_HANDLE_def MAXIMUM_PROC_PER_GROUP_def)
  from spawn_failure_is_fatal [of 2 ?e ?f] e f
  have "written Stderr (fst (posix_main ?e)) =
        [''Error creating thread '' @ dec_nat (nat 2) @ ''.\<newline>'']"
    and "snd (posix_main ?e) = EXIT_FAILURE"
    and "spawn_attempts (fst (posix_main ?e)) = [0..2]"
    and "written Stderr (fst (win_main ?f)) =
        [''ERROR: Failed to create thread '' @ dec_nat (nat 2) @
         (if (2::int) < 10 then ''.\<newline>'' @ [NUL] else ''.\<newline>'')]"
    and "snd (win_main ?f) = EXIT_FAILURE"
    by blast+
  then show ?thesis
    by (simp add: EXIT_FAILURE_def dec_nat.simps digit_char_def upto_rec1)
qed

text \<open>
  C5, at an input where it fails. The POSIX handler writes its line with
  \<^verbatim>\<open>fprintf(stdout, ...)\<close> (line 221): on \<^verbatim>\<open>SIGINT\<close> nothing goes to standard error and
  the line goes to standard output. The Windows handler writes to \<^verbatim>\<open>stdErr\<close>.
\<close>

theorem exit_handler_writes_to_stdout:
  "written Stderr (exit_handler SIGINT) = [] \<and>
   written Stdout (exit_handler SIGINT) = [''Received exit signal 2: Exiting...\<newline>''] \<and>
   written Stderr (ExitHandler buf 0) = [''Received exit signal 0: Exiting...\<newline>'']"
  by (simp add: exit_handler_def ExitHandler_eq SIGINT_def fmt_d_def fmt_lu_def dec_nat.simps
      digit_char_def)

text \<open>
  C6, at an input where it fails. On POSIX the results of the two \<^verbatim>\<open>signal\<close> calls of
  lines 181--182 are never inspected: when both registrations fail on a machine with two
  processors, nothing is written to standard error, both workers are spawned, the startup
  line is printed and \<^verbatim>\<open>main\<close> goes on to the joins, with \<^verbatim>\<open>EXIT_SUCCESS\<close> as the status
  it would return (with no handler installed the flag is never set, and a stop signal ends
  the process by its default action). The
  Windows \<^verbatim>\<open>main\<close> tests the result of \<^verbatim>\<open>SetConsoleCtrlHandler\<close> and leaves (lines 67--71).
\<close>

theorem posix_ignores_failed_signal_registration:
  "posix_main ((posix_ok 2)\<lparr>signal_ok := (\<lambda>sig. False)\<rparr>) =
     ([Query_cpus, Install SIGINT False, Install SIGTERM False, Alloc 2 True,
       Create 0 (Some 100), Create 1 (Some 101),
       Write Stdout ''Started 2 worker threads\<newline>'',
       Join (Some 100), Join (Some 101), Free],
      0) \<and>
   written Stderr (fst (posix_main ((posix_ok 2)\<lparr>signal_ok := (\<lambda>sig. False)\<rparr>))) = [] \<and>
   spawned (fst (posix_main ((posix_ok 2)\<lparr>signal_ok := (\<lambda>sig. False)\<rparr>))) = [100, 101] \<and>
   win_main ((win_ok 2)\<lparr>ctrl_handler_ok := False\<rparr>) =
     ([Get_handle Stdout True, Get_handle Stderr True, Install_ctrl False,
       Write Stderr ''ERROR: Failed to set console ctrl handler\<newline>''],
      1)"
proof -
  let ?e = "(posix_ok 2)\<lparr>signal_ok := (\<lambda>sig. False)\<rparr>"
  have "posix_main ?e =
    ([Query_cpus, Install SIGINT (signal_ok ?e SIGINT), Install SIGTERM (signal_ok ?e SIGTERM),
      Alloc (sint (sysconf_nprocs ?e)) True] @
     map (\<lambda>j. Create j (Some (pthread_create_id ?e j))) [0..sint (sysconf_nprocs ?e) - 1] @
     [Write Stdout (''Started '' @ fmt_d (sint (sysconf_nprocs ?e)) @ '' worker threads\<newline>'')] @
     map (\<lambda>j. Join (Some (pthread_create_id ?e j))) [0..sint (sysconf_nprocs ?e) - 1] @
     [Free],
     EXIT_SUCCESS)"
    by (rule posix_main_all_ok) (simp_all add: posix_ok_def)
  then have run: "posix_main ?e =
     ([Query_cpus, Install SIGINT False, Install SIGTERM False, Alloc 2 True,
       Create 0 (Some 100), Create 1 (Some 101),
       Write Stdout ''Started 2 worker threads\<newline>'',
       Join (Some 100), Join (Some 101), Free],
      0)"
    by (simp add: posix_ok_def EXIT_SUCCESS_def upto_rec1 fmt_d_def dec_nat.simps digit_char_def)
  have win: "win_main ((win_ok 2)\<lparr>ctrl_handler_ok := False\<rparr>) =
     ([Get_handle Stdout True, Get_handle Stderr True, Install_ctrl False,
       Write Stderr ''ERROR: Failed to set console ctrl handler\<newline>''],
      1)"
    by (simp add: win_main_def win_ok_def write_literal_eq NUL_def EXIT_FAILURE_def)
  show ?thesis
    unfolding run win by simp
qed

text \<open>
  C2. The flag \<^verbatim>\<open>stop\<close> is zero when the process starts. In every state the process
  reaches, under any schedule, on either platform: the flag is 0 or 1; \<^verbatim>\<open>main\<close> has no
  store to it among its calls; a step that changes it is a step of a signal handler and
  sets it to 1; once it is nonzero it stays nonzero whatever happens next; and in the
  sequence of values the workers have read, a nonzero read is never followed by a zero
  read. (Reads and writes of the variable are atomic and sequentially consistent in this
  model.)
\<close>

theorem stop_flag_monotonic:
  "(p0 = posix_process penv \<or> p0 = win_process wenv) \<and> run sched p0 = Some p \<longrightarrow>
     stop p0 = 0 \<and>
     (stop p = 0 \<or> stop p = 1) \<and>
     (\<forall>v. Set_stop v \<notin> set (supervisor p)) \<and>
     (\<forall>a q. step a p = Some q \<and> stop q \<noteq> stop p \<longrightarrow> (\<exists>k. a = Handler k) \<and> stop q = 1) \<and>
     (\<forall>more q. run more p = Some q \<and> stop p \<noteq> 0 \<longrightarrow> stop q \<noteq> 0) \<and>
     (\<forall>i j. i < j \<and> j < length (observed p) \<and> observed p ! i \<noteq> 0 \<longrightarrow> observed p ! j \<noteq> 0)"
proof (intro impI)
  assume h: "(p0 = posix_process penv \<or> p0 = win_process wenv) \<and> run sched p0 = Some p"
  then have start: "flag_inv p0"
    using flag_inv_posix_process flag_inv_win_process by auto
  have zero: "stop p0 = 0"
    using h by (auto simp: posix_process_def win_process_def boot_def)
  have inv: "flag_inv p"
    using h start by (auto dest: run_flag_inv)
  have reads: "sorted (observed p)" "set (observed p) \<subseteq> {0, 1}"
    using inv unfolding flag_inv_def by auto
  show "stop p0 = 0 \<and>
     (stop p = 0 \<or> stop p = 1) \<and>
     (\<forall>v. Set_stop v \<notin> set (supervisor p)) \<and>
     (\<forall>a q. step a p = Some q \<and> stop q \<noteq> stop p \<longrightarrow> (\<exists>k. a = Handler k) \<and> stop q = 1) \<and>
     (\<forall>more q. run more p = Some q \<and> stop p \<noteq> 0 \<longrightarrow> stop q \<noteq> 0) \<and>
     (\<forall>i j. i < j \<and> j < length (observed p) \<and> observed p ! i \<noteq> 0 \<longrightarrow> observed p ! j \<noteq> 0)"
  proof (intro conjI allI impI)
    show "stop p0 = 0"
      by (rule zero)
    show "stop p = 0 \<or> stop p = 1"
      using inv unfolding flag_inv_def by simp
    show "Set_stop v \<notin> set (supervisor p)" for v
      using inv unfolding flag_inv_def by simp
    show "\<exists>k. a = Handler k" if "step a p = Some q \<and> stop q \<noteq> stop p" for a q
      using step_changes_stop [of a p q] that inv by simp
    show "stop q = 1" if "step a p = Some q \<and> stop q \<noteq> stop p" for a q
      using step_changes_stop [of a p q] that inv by simp
    show "stop q \<noteq> 0" if "run more p = Some q \<and> stop p \<noteq> 0" for more q
      using run_keeps_stop [of more p q] that inv by simp
    show "observed p ! j \<noteq> 0"
      if "i < j \<and> j < length (observed p) \<and> observed p ! i \<noteq> 0" for i j
      using sorted_reads_monotonic [OF reads, of i j] that by simp
  qed
qed

theorem stop_flag_monotonic_witness:
  "stop (posix_process (posix_ok 1)) = 0 \<and>
   map_option (\<lambda>p. (stop p, observed p, state p))
     (run clean_shutdown (posix_process (posix_ok 1))) = Some (1, [0, 0, 1], Exited 0)"
proof -
  have main: "posix_main (posix_ok 1) =
     ([Query_cpus, Install SIGINT True, Install SIGTERM True, Alloc 1 True,
       Create 0 (Some 100), Write Stdout ''Started 1 worker threads\<newline>'',
       Join (Some 100), Free], 0)"
    using posix_main_one_cpu [of "posix_ok 1" "\<lambda>sig. True"] by (simp add: posix_ok_def)
  from clean_shutdown_run [OF main]
  obtain p where p: "run clean_shutdown (posix_process (posix_ok 1)) = Some p"
    and final: "stop p = 1" "observed p = [0, 0, 1]" "state p = Exited 0"
    by auto
  have "stop (posix_process (posix_ok 1)) = 0"
    using stop_flag_monotonic [of "posix_process (posix_ok 1)" "posix_ok 1" "win_ok 1"
        clean_shutdown p] p
    by simp
  then show ?thesis
    using p final by simp
qed

text \<open>
  C4, at an input where it fails. On a one-processor POSIX system where
  \<^verbatim>\<open>signal(SIGTERM, exit_handler)\<close> fails, the third call of \<^verbatim>\<open>main\<close> records the failed
  registration and startup goes on; after a \<^verbatim>\<open>SIGINT\<close> the process ends with status 0,
  although a startup step, the registration of a signal handler, has failed. Lemmas
  \<open>posix_exit_status\<close> and \<open>win_exit_status\<close> give what holds under every schedule: a
  process that exits does so with status 0 when the count is positive and allocation and
  all spawns succeeded (on Windows: and the console handles and the control handler were
  obtained), with status 1 otherwise; and status 0 is reached only after \<^verbatim>\<open>main\<close> has made
  all its calls, the waits for the workers among them, with the flag set by a handler
  activation.
\<close>

theorem posix_exit_zero_after_failed_registration:
  "fst (posix_main ((posix_ok 1)\<lparr>signal_ok := (\<lambda>sig. sig = SIGINT)\<rparr>)) ! 2 =
     Install SIGTERM False \<and>
   map_option state
     (run clean_shutdown (posix_process ((posix_ok 1)\<lparr>signal_ok := (\<lambda>sig. sig = SIGINT)\<rparr>))) =
     Some (Exited 0)"
proof -
  let ?e = "(posix_ok 1)\<lparr>signal_ok := (\<lambda>sig. sig = SIGINT)\<rparr>"
  have main: "posix_main ?e =
     ([Query_cpus, Install SIGINT True, Install SIGTERM False, Alloc 1 True,
       Create 0 (Some 100), Write Stdout ''Started 1 worker threads\<newline>'',
       Join (Some 100), Free], 0)"
    using posix_main_one_cpu [of ?e "\<lambda>sig. sig = SIGINT"]
    by (simp add: posix_ok_def SIGINT_def SIGTERM_def)
  from clean_shutdown_run [OF main] show ?thesis
    by (auto simp: main)
qed

end
